theory Spec2Isabelle
  imports Main "HOL-Library.State_Monad"
begin

section \<open>The OpenAPI document builder of go-oas-docs (build.go)\<close>

text \<open>
  The theory embeds \<^verbatim>\<open>build.go\<close>: the transformation of an \<^verbatim>\<open>OAS\<close> object graph into
  the nested key-value document handed to the YAML serializer, and the driver
  \<^verbatim>\<open>BuildDocs\<close> that validates, serializes and writes the result.

  Go strings are byte sequences and are modelled by \<^typ>\<open>string\<close>. A Go map is a partial
  function: an absent key is \<^term>\<open>None\<close>, an assignment \<^verbatim>\<open>m[k] = v\<close> is a function update.
  Every \<^verbatim>\<open>for ... range\<close> loop is a recursive function over the slice that threads the map
  under construction as an accumulator.
\<close>

subsection \<open>Constants\<close>

definition defaultDocsOutPath :: string where
  "defaultDocsOutPath = ''./internal/dist/openapi.yaml''"

definition keyTags :: string where "keyTags = ''tags''"
definition keySummary :: string where "keySummary = ''summary''"
definition keyOperationID :: string where "keyOperationID = ''operationId''"
definition keySecurity :: string where "keySecurity = ''security''"
definition keyRequestBody :: string where "keyRequestBody = ''requestBody''"
definition keyResponses :: string where "keyResponses = ''responses''"
definition keyDescription :: string where "keyDescription = ''description''"
definition keyContent :: string where "keyContent = ''content''"
definition keyRef :: string where "keyRef = ''$ref''"
definition keySchemas :: string where "keySchemas = ''schemas''"
definition keySecuritySchemes :: string where "keySecuritySchemes = ''securitySchemes''"
definition keyName :: string where "keyName = ''name''"
definition keyType :: string where "keyType = ''type''"
definition keyProperties :: string where "keyProperties = ''properties''"
definition keyIn :: string where "keyIn = ''in''"
definition keyXML :: string where "keyXML = ''xml''"

subsection \<open>The input object graph\<close>

text \<open>
  Modelled from the spec: the struct declarations of the input graph, which are in other
  files of the package. Each record below has exactly the fields that \<^verbatim>\<open>build.go\<close> reads,
  named \<^verbatim>\<open>Struct_Field\<close>. Where the code forces a type, that type is used: a field that
  is a map key, an argument of \<^verbatim>\<open>strings.ToLower\<close> or a value of \<^verbatim>\<open>map[string]string\<close> is
  a string, \<^verbatim>\<open>PermTypes\<close> is a value of \<^verbatim>\<open>map[string][]string\<close>, and \<^verbatim>\<open>Code\<close> is a key
  of \<^verbatim>\<open>map[uint]interface{}\<close> (an unsigned number that is only ever used as a key,
  hence \<^typ>\<open>nat\<close>). The scalar attributes \<^verbatim>\<open>Summary\<close>, \<^verbatim>\<open>OperationID\<close>,
  \<^verbatim>\<open>Description\<close>, \<^verbatim>\<open>Type\<close> and \<^verbatim>\<open>Ref\<close> are strings, as the spec's data model has
  them. The values that the code only copies (\<^verbatim>\<open>OASVersion\<close>, \<^verbatim>\<open>Info\<close>,
  \<^verbatim>\<open>ExternalDocs\<close>, \<^verbatim>\<open>Servers\<close>, \<^verbatim>\<open>Tags\<close>, a path's \<^verbatim>\<open>Tags\<close>, a schema's
  \<^verbatim>\<open>Properties\<close>) range over a type parameter \<open>'a\<close>, and the further fields of the XML
  struct, of which the code reads \<^verbatim>\<open>Name\<close> only, are the extension \<open>'x\<close> of the record
  \<open>XMLEntry\<close>.
\<close>

record ContentType =
  ContentType_Name :: string
  ContentType_Schema :: string

record SecurityEntity =
  SecurityEntity_AuthName :: string
  SecurityEntity_PermTypes :: "string list"

record RequestBody =
  RequestBody_Description :: string
  RequestBody_Content :: "ContentType list"

record Response =
  Response_Code :: nat
  Response_Description :: string
  Response_Content :: "ContentType list"

record 'a Path =
  Path_Route :: string
  Path_HTTPMethod :: string
  Path_Tags :: 'a
  Path_Summary :: string
  Path_OperationID :: string
  Path_Security :: "SecurityEntity list"
  Path_RequestBody :: RequestBody
  Path_Responses :: "Response list"

record XMLEntry =
  XMLEntry_Name :: string

record ('a, 'x) Schema =
  Schema_Name :: string
  Schema_Type :: string
  Schema_Properties :: 'a
  Schema_Ref :: string
  Schema_XML :: "'x XMLEntry_scheme"

record SecurityScheme =
  SecurityScheme_Name :: string
  SecurityScheme_Type :: string
  SecurityScheme_In :: string

record ('a, 'x) Component =
  Component_Schemas :: "('a, 'x) Schema list"
  Component_SecuritySchemes :: "SecurityScheme list"

record ('a, 'x) OAS =
  OAS_OASVersion :: 'a
  OAS_Info :: 'a
  OAS_ExternalDocs :: 'a
  OAS_Servers :: 'a
  OAS_Tags :: 'a
  OAS_Paths :: "'a Path list"
  OAS_Components :: "('a, 'x) Component list"

subsection \<open>The output tree\<close>

text \<open>
  \<^verbatim>\<open>interface{}\<close> is a tagged value. The constructors are the dynamic types that
  \<^verbatim>\<open>build.go\<close> stores in one: strings, copied input values, the XML struct, the security
  sequence, and the three shapes of map.
\<close>

type_synonym pathSecurityMap = "string \<rightharpoonup> string list"
type_synonym pathSecurityMaps = "pathSecurityMap list"

datatype ('a, 'x) iface =
    IString string
  | IValue 'a
  | IXML "'x XMLEntry_scheme"
  | ISecurity pathSecurityMaps
  | ISchema "string \<rightharpoonup> (string \<rightharpoonup> string)"
  | IMap "string \<rightharpoonup> ('a, 'x) iface"
  | IUintMap "nat \<rightharpoonup> ('a, 'x) iface"

type_synonym ('a, 'x) methodsMap = "string \<rightharpoonup> ('a, 'x) iface"
type_synonym ('a, 'x) pathsMap = "string \<rightharpoonup> ('a, 'x) methodsMap"
type_synonym ('a, 'x) componentsMap = "string \<rightharpoonup> ('a, 'x) iface"

text \<open>
  The two map fields of \<^verbatim>\<open>hybridOAS\<close> are \<^term>\<open>None\<close> for Go's nil map (their value in
  the zero struct \<^verbatim>\<open>hybridOAS{}\<close>) and \<^term>\<open>Some m\<close> for an allocated map.
\<close>

record ('a, 'x) hybridOAS =
  OpenAPI :: 'a
  Info :: 'a
  ExternalDocs :: 'a
  Servers :: 'a
  Tags :: 'a
  Paths :: "('a, 'x) pathsMap option"
  Components :: "('a, 'x) componentsMap option"

subsection \<open>Primitive and aggregate map builders\<close>

text \<open>\<^verbatim>\<open>makeContentSchemaMap\<close>: one entry per content type, keyed by its name.\<close>

definition schemaMap :: "ContentType \<Rightarrow> (string \<rightharpoonup> (string \<rightharpoonup> string))" where
  "schemaMap ct = [''schema'' \<mapsto> [keyRef \<mapsto> ContentType_Schema ct]]"

fun makeContentSchemaMap_loop ::
  "ContentType list \<Rightarrow> (string \<rightharpoonup> ('a, 'x) iface) \<Rightarrow> (string \<rightharpoonup> ('a, 'x) iface)" where
  "makeContentSchemaMap_loop [] contentSchemaMap = contentSchemaMap"
| "makeContentSchemaMap_loop (ct # content) contentSchemaMap =
     makeContentSchemaMap_loop content
       (contentSchemaMap(ContentType_Name ct \<mapsto> ISchema (schemaMap ct)))"

definition makeContentSchemaMap :: "ContentType list \<Rightarrow> (string \<rightharpoonup> ('a, 'x) iface)" where
  "makeContentSchemaMap content = makeContentSchemaMap_loop content Map.empty"

text \<open>\<^verbatim>\<open>makeRequestBodyMap\<close>.\<close>

definition makeRequestBodyMap :: "RequestBody \<Rightarrow> (string \<rightharpoonup> ('a, 'x) iface)" where
  "makeRequestBodyMap reqBody =
     [keyDescription \<mapsto> IString (RequestBody_Description reqBody),
      keyContent \<mapsto> IMap (makeContentSchemaMap (RequestBody_Content reqBody))]"

text \<open>
  \<^verbatim>\<open>makeResponsesMap\<close>: \<open>codeBodyMap\<close> is the map built in the loop body, stored under the
  response's status code.
\<close>

definition codeBodyMap :: "Response \<Rightarrow> (string \<rightharpoonup> ('a, 'x) iface)" where
  "codeBodyMap resp =
     [keyDescription \<mapsto> IString (Response_Description resp),
      keyContent \<mapsto> IMap (makeContentSchemaMap (Response_Content resp))]"

fun makeResponsesMap_loop ::
  "Response list \<Rightarrow> (nat \<rightharpoonup> ('a, 'x) iface) \<Rightarrow> (nat \<rightharpoonup> ('a, 'x) iface)" where
  "makeResponsesMap_loop [] responsesMap = responsesMap"
| "makeResponsesMap_loop (resp # responses) responsesMap =
     makeResponsesMap_loop responses
       (responsesMap(Response_Code resp \<mapsto> IMap (codeBodyMap resp)))"

definition makeResponsesMap :: "Response list \<Rightarrow> (nat \<rightharpoonup> ('a, 'x) iface)" where
  "makeResponsesMap responses = makeResponsesMap_loop responses Map.empty"

text \<open>\<^verbatim>\<open>makeSecurityMap\<close>: a one-entry map per security entity, appended in input order.\<close>

fun makeSecurityMap_loop :: "SecurityEntity list \<Rightarrow> pathSecurityMaps \<Rightarrow> pathSecurityMaps" where
  "makeSecurityMap_loop [] securityMaps = securityMaps"
| "makeSecurityMap_loop (sec # se) securityMaps =
     makeSecurityMap_loop se
       (securityMaps @ [[SecurityEntity_AuthName sec \<mapsto> SecurityEntity_PermTypes sec]])"

definition makeSecurityMap :: "SecurityEntity list \<Rightarrow> pathSecurityMaps" where
  "makeSecurityMap se = makeSecurityMap_loop se []"

text \<open>
  \<^verbatim>\<open>makeComponentSchemasMap\<close>: \<open>schemaScheme\<close> is the map \<^verbatim>\<open>scheme\<close> of the loop body; the
  key \<^verbatim>\<open>xml\<close> is assigned under the guard \<^verbatim>\<open>s.XML.Name != ""\<close>.
\<close>

definition schemaScheme :: "('a, 'x) Schema \<Rightarrow> (string \<rightharpoonup> ('a, 'x) iface)" where
  "schemaScheme s =
     (let scheme = [keyType \<mapsto> IString (Schema_Type s),
                    keyProperties \<mapsto> IValue (Schema_Properties s),
                    keyRef \<mapsto> IString (Schema_Ref s)]
      in if XMLEntry_Name (Schema_XML s) \<noteq> ''''
         then scheme(keyXML \<mapsto> IXML (Schema_XML s))
         else scheme)"

fun makeComponentSchemasMap_loop ::
  "('a, 'x) Schema list \<Rightarrow> (string \<rightharpoonup> ('a, 'x) iface) \<Rightarrow> (string \<rightharpoonup> ('a, 'x) iface)" where
  "makeComponentSchemasMap_loop [] schemesMap = schemesMap"
| "makeComponentSchemasMap_loop (s # schemas) schemesMap =
     makeComponentSchemasMap_loop schemas (schemesMap(Schema_Name s \<mapsto> IMap (schemaScheme s)))"

definition makeComponentSchemasMap :: "('a, 'x) Schema list \<Rightarrow> (string \<rightharpoonup> ('a, 'x) iface)" where
  "makeComponentSchemasMap schemas = makeComponentSchemasMap_loop schemas Map.empty"

text \<open>
  \<^verbatim>\<open>makeComponentSecuritySchemesMap\<close>: \<open>secScheme\<close> is the map \<^verbatim>\<open>scheme\<close> of the loop body;
  the key \<^verbatim>\<open>in\<close> is assigned under the guard \<^verbatim>\<open>ss.In != ""\<close>.
\<close>

definition secScheme :: "SecurityScheme \<Rightarrow> (string \<rightharpoonup> ('a, 'x) iface)" where
  "secScheme ss =
     (let scheme = [keyName \<mapsto> IString (SecurityScheme_Name ss),
                    keyType \<mapsto> IString (SecurityScheme_Type ss)]
      in if SecurityScheme_In ss \<noteq> ''''
         then scheme(keyIn \<mapsto> IString (SecurityScheme_In ss))
         else scheme)"

fun makeComponentSecuritySchemesMap_loop ::
  "SecurityScheme list \<Rightarrow> (string \<rightharpoonup> ('a, 'x) iface) \<Rightarrow> (string \<rightharpoonup> ('a, 'x) iface)" where
  "makeComponentSecuritySchemesMap_loop [] secSchemesMap = secSchemesMap"
| "makeComponentSecuritySchemesMap_loop (ss # secSchemes) secSchemesMap =
     makeComponentSecuritySchemesMap_loop secSchemes
       (secSchemesMap(SecurityScheme_Name ss \<mapsto> IMap (secScheme ss)))"

definition makeComponentSecuritySchemesMap ::
  "SecurityScheme list \<Rightarrow> (string \<rightharpoonup> ('a, 'x) iface)" where
  "makeComponentSecuritySchemesMap secSchemes =
     makeComponentSecuritySchemesMap_loop secSchemes Map.empty"

text \<open>
  \<^verbatim>\<open>makeComponentsMap\<close>: every iteration assigns both keys of the one map \<^verbatim>\<open>cm\<close>.
\<close>

fun makeComponentsMap_loop ::
  "('a, 'x) Component list \<Rightarrow> ('a, 'x) componentsMap \<Rightarrow> ('a, 'x) componentsMap" where
  "makeComponentsMap_loop [] cm = cm"
| "makeComponentsMap_loop (component # components) cm =
     makeComponentsMap_loop components
       (cm(keySchemas \<mapsto> IMap (makeComponentSchemasMap (Component_Schemas component)),
           keySecuritySchemes \<mapsto>
             IMap (makeComponentSecuritySchemesMap (Component_SecuritySchemes component))))"

definition makeComponentsMap :: "('a, 'x) Component list \<Rightarrow> ('a, 'x) componentsMap" where
  "makeComponentsMap components = makeComponentsMap_loop components Map.empty"

subsection \<open>The document assembler\<close>

text \<open>
  \<^verbatim>\<open>strings.ToLower\<close> belongs to Go's standard library, not to this package: the assembler
  takes it as the parameter \<open>toLower\<close>. \<open>asciiToLower\<close> is what it computes on a string
  of ASCII bytes (every \<^verbatim>\<open>'A'..'Z'\<close> moved by \<^verbatim>\<open>'a' - 'A'\<close>, every other byte kept); it
  is the instance at which concrete inputs are evaluated.
\<close>

definition asciiToLower :: "string \<Rightarrow> string" where
  "asciiToLower s =
     map (\<lambda>c. if 65 \<le> (of_char c :: nat) \<and> (of_char c :: nat) \<le> 90
               then char_of ((of_char c :: nat) + 32) else c) s"

text \<open>
  \<^verbatim>\<open>makeAllPathsMap\<close>: \<open>pathMap\<close> is the per-method map of the loop body. The test
  \<^verbatim>\<open>allPaths[path.Route] == nil\<close> holds exactly when the route has no entry yet, since
  every entry is an allocated map; the assignment through \<^verbatim>\<open>allPaths[path.Route][...]\<close>
  updates the methods map stored under the route.
\<close>

definition pathMap :: "'a Path \<Rightarrow> (string \<rightharpoonup> ('a, 'x) iface)" where
  "pathMap path =
     [keyTags \<mapsto> IValue (Path_Tags path),
      keySummary \<mapsto> IString (Path_Summary path),
      keyOperationID \<mapsto> IString (Path_OperationID path),
      keySecurity \<mapsto> ISecurity (makeSecurityMap (Path_Security path)),
      keyRequestBody \<mapsto> IMap (makeRequestBodyMap (Path_RequestBody path)),
      keyResponses \<mapsto> IUintMap (makeResponsesMap (Path_Responses path))]"

fun makeAllPathsMap_loop ::
  "(string \<Rightarrow> string) \<Rightarrow> 'a Path list \<Rightarrow> ('a, 'x) pathsMap \<Rightarrow> ('a, 'x) pathsMap" where
  "makeAllPathsMap_loop toLower [] allPaths = allPaths"
| "makeAllPathsMap_loop toLower (path # paths) allPaths =
     (let methods = (case allPaths (Path_Route path) of None \<Rightarrow> Map.empty | Some m \<Rightarrow> m)
      in makeAllPathsMap_loop toLower paths
           (allPaths(Path_Route path \<mapsto>
              methods(toLower (Path_HTTPMethod path) \<mapsto> IMap (pathMap path)))))"

definition makeAllPathsMap :: "(string \<Rightarrow> string) \<Rightarrow> 'a Path list \<Rightarrow> ('a, 'x) pathsMap" where
  "makeAllPathsMap toLower paths = makeAllPathsMap_loop toLower paths Map.empty"

text \<open>\<^verbatim>\<open>transformToHybridOAS\<close>: five fields copied, two maps built.\<close>

definition transformToHybridOAS ::
  "(string \<Rightarrow> string) \<Rightarrow> ('a, 'x) OAS \<Rightarrow> ('a, 'x) hybridOAS" where
  "transformToHybridOAS toLower oas =
     \<lparr> OpenAPI = OAS_OASVersion oas,
       Info = OAS_Info oas,
       ExternalDocs = OAS_ExternalDocs oas,
       Servers = OAS_Servers oas,
       Tags = OAS_Tags oas,
       Paths = Some (makeAllPathsMap toLower (OAS_Paths oas)),
       Components = Some (makeComponentsMap (OAS_Components oas)) \<rparr>"

text \<open>
  The YAML tags of the struct \<^verbatim>\<open>hybridOAS\<close>, in declaration order, each with the field it
  names. No tag carries \<^verbatim>\<open>omitempty\<close>.
\<close>

datatype ('a, 'x) field =
    FValue 'a
  | FPaths "('a, 'x) pathsMap option"
  | FComponents "('a, 'x) componentsMap option"

definition hybridOAS_fields :: "('a, 'x) hybridOAS \<Rightarrow> (string \<times> ('a, 'x) field) list" where
  "hybridOAS_fields ho =
     [(''openapi'', FValue (OpenAPI ho)),
      (''info'', FValue (Info ho)),
      (''externalDocs'', FValue (ExternalDocs ho)),
      (''servers'', FValue (Servers ho)),
      (''tags'', FValue (Tags ho)),
      (''paths'', FPaths (Paths ho)),
      (''components'', FComponents (Components ho))]"

subsection \<open>The emission driver\<close>

text \<open>\<^verbatim>\<open>ConfigBuilder\<close>, \<^verbatim>\<open>getPath\<close> and \<^verbatim>\<open>getPathFromFirstElement\<close>.\<close>

record ConfigBuilder =
  customPath :: string

definition getPath :: "ConfigBuilder \<Rightarrow> string" where
  "getPath cb = customPath cb"

definition getPathFromFirstElement :: "ConfigBuilder list \<Rightarrow> string" where
  "getPathFromFirstElement cbs =
     (case cbs of [] \<Rightarrow> defaultDocsOutPath | cb # _ \<Rightarrow> getPath cb)"

text \<open>
  A Go \<^verbatim>\<open>error\<close> is \<^term>\<open>None\<close> for nil. \<open>Cause e\<close> is an error \<open>e\<close> returned by a
  collaborator; \<open>Errorf msg err\<close> is \<^verbatim>\<open>fmt.Errorf("msg: %w", err)\<close>, the message and the
  error it wraps.
\<close>

datatype 'e error = Cause 'e | Errorf string "'e error"

text \<open>
  The collaborators outside \<^verbatim>\<open>build.go\<close>, each given by what it returns:
  \<^verbatim>\<open>initCallStackForRoutes\<close> (a method of \<^verbatim>\<open>*OAS\<close> declared in another file of the package,
  which may update its receiver), \<^verbatim>\<open>yaml.Marshal\<close>, \<^verbatim>\<open>os.Create\<close>, and \<^verbatim>\<open>Write\<close> and
  \<^verbatim>\<open>Flush\<close> of the buffered writer.
\<close>

record ('a, 'x, 'e) collaborators =
  strings_ToLower :: "string \<Rightarrow> string"
  initCallStackForRoutes :: "('a, 'x) OAS \<Rightarrow> 'e option \<times> ('a, 'x) OAS"
  yaml_Marshal :: "('a, 'x) hybridOAS \<Rightarrow> 'e + string"
  os_Create :: "string \<Rightarrow> 'e option"
  writer_Write :: "string \<Rightarrow> 'e option"
  writer_Flush :: "'e option"

text \<open>
  The world outside the program, as far as the driver touches it: how many file handles
  it holds open, and the collaborator calls made so far, oldest first.
\<close>

datatype event =
    CallInit
  | CallMarshal
  | CallCreate string
  | CallWrite string
  | CallFlush
  | CallClose

record world =
  open_handles :: nat
  calls :: "event list"

definition call :: "event \<Rightarrow> world \<Rightarrow> world" where
  "call ev w = w\<lparr> calls := calls w @ [ev] \<rparr>"

definition opened :: "world \<Rightarrow> world" where
  "opened w = w\<lparr> open_handles := Suc (open_handles w) \<rparr>"

definition file_Close :: "world \<Rightarrow> world" where
  "file_Close w = call CallClose (w\<lparr> open_handles := open_handles w - 1 \<rparr>)"

text \<open>\<^verbatim>\<open>marshalToYAML\<close>; on an error the caller discards the bytes.\<close>

definition marshalToYAML ::
  "('a, 'x, 'e) collaborators \<Rightarrow> ('a, 'x) OAS \<Rightarrow> world \<Rightarrow> ('e error + string) \<times> world" where
  "marshalToYAML env oas w =
     (let transformedOAS = transformToHybridOAS (strings_ToLower env) oas
      in case yaml_Marshal env transformedOAS of
           Inl e \<Rightarrow> (Inl (Errorf ''failed marshaling to yaml'' (Cause e)), call CallMarshal w)
         | Inr yml \<Rightarrow> (Inr yml, call CallMarshal w))"

text \<open>\<^verbatim>\<open>writeAndFlush\<close>.\<close>

definition writeAndFlush ::
  "('a, 'x, 'e) collaborators \<Rightarrow> string \<Rightarrow> world \<Rightarrow> 'e error option \<times> world" where
  "writeAndFlush env yml w =
     (let w1 = call (CallWrite yml) w
      in case writer_Write env yml of
           Some e \<Rightarrow> (Some (Errorf ''failed writing to YAML output file'' (Cause e)), w1)
         | None \<Rightarrow>
             (let w2 = call CallFlush w1
              in case writer_Flush env of
                   Some e \<Rightarrow> (Some (Errorf ''failed flushing output writer'' (Cause e)), w2)
                 | None \<Rightarrow> (None, w2)))"

text \<open>
  \<^verbatim>\<open>createYAMLOutFile\<close>. The deferred \<^verbatim>\<open>outYAML.Close()\<close> is registered after the check of
  \<^verbatim>\<open>os.Create\<close>'s error and runs at both returns that follow; what it returns is dropped.
\<close>

definition createYAMLOutFile ::
  "('a, 'x, 'e) collaborators \<Rightarrow> string \<Rightarrow> string \<Rightarrow> world \<Rightarrow> 'e error option \<times> world" where
  "createYAMLOutFile env outPath marshaledYAML w =
     (let w1 = call (CallCreate outPath) w
      in case os_Create env outPath of
           Some e \<Rightarrow> (Some (Errorf ''failed creating yaml output file'' (Cause e)), w1)
         | None \<Rightarrow>
             (case writeAndFlush env marshaledYAML (opened w1) of
                (Some err, w2) \<Rightarrow> (Some (Errorf ''writing issue occurred'' err), file_Close w2)
              | (None, w2) \<Rightarrow> (None, file_Close w2)))"

text \<open>\<^verbatim>\<open>BuildDocs\<close>.\<close>

definition BuildDocs ::
  "('a, 'x, 'e) collaborators \<Rightarrow> ('a, 'x) OAS \<Rightarrow> ConfigBuilder list \<Rightarrow> world
     \<Rightarrow> 'e error option \<times> world" where
  "BuildDocs env oas conf w =
     (case initCallStackForRoutes env oas of
        (Some e, oas1) \<Rightarrow>
          (Some (Errorf ''failed initiating call stack for registered routes'' (Cause e)),
           call CallInit w)
      | (None, oas1) \<Rightarrow>
          (case marshalToYAML env oas1 (call CallInit w) of
             (Inl err, w1) \<Rightarrow> (Some (Errorf ''marshaling issue occurred'' err), w1)
           | (Inr yml, w1) \<Rightarrow>
               (case createYAMLOutFile env (getPathFromFirstElement conf) yml w1 of
                  (Some err, w2) \<Rightarrow>
                    (Some (Errorf ''an issue occurred while saving to YAML output'' err), w2)
                | (None, w2) \<Rightarrow> (None, w2))))"

subsection \<open>Concrete inputs\<close>

text \<open>
  An empty document and a set of collaborators that all succeed, at which the driver is
  evaluated; a failing stage is a record update of \<open>env_ok\<close>.
\<close>

definition oas_empty :: "(unit, unit) OAS" where
  "oas_empty =
     \<lparr> OAS_OASVersion = (), OAS_Info = (), OAS_ExternalDocs = (), OAS_Servers = (),
       OAS_Tags = (), OAS_Paths = [], OAS_Components = [] \<rparr>"

definition env_ok :: "(unit, unit, string) collaborators" where
  "env_ok =
     \<lparr> strings_ToLower = asciiToLower,
       initCallStackForRoutes = (\<lambda>oas. (None, oas)),
       yaml_Marshal = (\<lambda>ho. Inr ''openapi: 3.0.1''),
       os_Create = (\<lambda>outPath. None),
       writer_Write = (\<lambda>yml. None),
       writer_Flush = None \<rparr>"

definition world0 :: world where
  "world0 = \<lparr> open_handles = 0, calls = [] \<rparr>"

text \<open>
  Two routes on one path whose methods differ in letter case only.
\<close>

definition route_upper :: "unit Path" where
  "route_upper =
     \<lparr> Path_Route = ''/users'', Path_HTTPMethod = ''GET'', Path_Tags = (),
       Path_Summary = ''list users'', Path_OperationID = ''listUsers'', Path_Security = [],
       Path_RequestBody = \<lparr> RequestBody_Description = '''', RequestBody_Content = [] \<rparr>,
       Path_Responses = [] \<rparr>"

definition route_lower :: "unit Path" where
  "route_lower =
     \<lparr> Path_Route = ''/users'', Path_HTTPMethod = ''get'', Path_Tags = (),
       Path_Summary = ''fetch users'', Path_OperationID = ''fetchUsers'', Path_Security = [],
       Path_RequestBody = \<lparr> RequestBody_Description = '''', RequestBody_Content = [] \<rparr>,
       Path_Responses = [] \<rparr>"

text \<open>
  A third route on the same path with another method.
\<close>

definition route_post :: "unit Path" where
  "route_post =
     \<lparr> Path_Route = ''/users'', Path_HTTPMethod = ''POST'', Path_Tags = (),
       Path_Summary = ''create user'', Path_OperationID = ''createUser'', Path_Security = [],
       Path_RequestBody = \<lparr> RequestBody_Description = '''', RequestBody_Content = [] \<rparr>,
       Path_Responses = [] \<rparr>"

subsection \<open>The transform over a store of objects\<close>

text \<open>
  A Go map value is a reference to a map object, \<^verbatim>\<open>make\<close> allocates a new object, and a
  slice value is a header that points to a backing array. To speak about which objects the
  transform allocates, writes and shares, the same functions are embedded a second time
  over an explicit store: \<open>objs\<close> maps an address to the object there (a map or a
  backing array of strings), \<open>lim\<close> is the next unused address, and \<open>receiver\<close> is the
  \<^verbatim>\<open>OAS\<close> value that the method's receiver \<^verbatim>\<open>o\<close> points to.

  In this embedding the input carries its references. \<^verbatim>\<open>PermTypes\<close>, a \<^verbatim>\<open>[]string\<close>, is a
  \<open>slice\<close>: the address of its backing array (none for a nil slice) and its length. A
  value whose type is declared outside \<^verbatim>\<open>build.go\<close> (\<^verbatim>\<open>OASVersion\<close>, \<^verbatim>\<open>Info\<close>,
  \<^verbatim>\<open>ExternalDocs\<close>, \<^verbatim>\<open>Servers\<close>, \<^verbatim>\<open>Tags\<close>, a path's \<^verbatim>\<open>Tags\<close>, a schema's
  \<^verbatim>\<open>Properties\<close>, the further fields of the XML struct) is a \<open>gvalue\<close>: a scalar, which
  refers to nothing, a reference (a slice, map or pointer) to the object at an address, or
  a struct of such values. The slices that the code only ranges over stay lists.
\<close>

type_synonym addr = nat

datatype key = KString string | KUint nat

datatype gvalue = Scalar string | Reference addr | Struct "gvalue list"

datatype slice = Slice "addr option" nat

record SecurityEntityH =
  SecurityEntityH_AuthName :: string
  SecurityEntityH_PermTypes :: slice

record PathH =
  PathH_Route :: string
  PathH_HTTPMethod :: string
  PathH_Tags :: gvalue
  PathH_Summary :: string
  PathH_OperationID :: string
  PathH_Security :: "SecurityEntityH list"
  PathH_RequestBody :: RequestBody
  PathH_Responses :: "Response list"

record OASH =
  OASH_OASVersion :: gvalue
  OASH_Info :: gvalue
  OASH_ExternalDocs :: gvalue
  OASH_Servers :: gvalue
  OASH_Tags :: gvalue
  OASH_Paths :: "PathH list"
  OASH_Components :: "(gvalue, gvalue) Component list"

text \<open>
  What a map holds under a key. A map made by the code and stored in another map or in an
  \<^verbatim>\<open>interface{}\<close> is the reference \<open>HRef\<close>; the slice of security maps, which the code
  makes and appends to, is the list of their references \<open>HRefs\<close>. A value assigned from
  the input is the input's value itself: \<open>HSlice\<close> is the slice header of
  \<^verbatim>\<open>sec.PermTypes\<close>, \<open>HValue\<close> and \<open>HXML\<close> are the copied \<open>gvalue\<close> and XML struct.
\<close>

datatype hval =
    HString string
  | HSlice slice
  | HValue gvalue
  | HXML "gvalue XMLEntry_scheme"
  | HRef addr
  | HRefs "addr list"

datatype obj = MapObj "key \<rightharpoonup> hval" | ArrayObj "string list"

record heap =
  receiver :: OASH
  objs :: "addr \<rightharpoonup> obj"
  lim :: addr

text \<open>
  \<open>make_map\<close> is \<^verbatim>\<open>make(map[...]...)\<close>, \<open>map_assign a k v\<close> is \<^verbatim>\<open>m[k] = v\<close> and
  \<open>map_index a k\<close> is \<^verbatim>\<open>m[k]\<close> for the map \<^verbatim>\<open>m\<close> at address \<open>a\<close> (an absent key reads as
  \<^term>\<open>None\<close>, Go's nil). The code assigns only into maps that it has made; at an address
  without a map \<open>map_assign\<close> leaves the store as it is. \<open>deref_receiver\<close> reads \<^verbatim>\<open>*o\<close>.
\<close>

definition make_map :: "(heap, addr) state" where
  "make_map =
     State (\<lambda>h. (lim h, h\<lparr> objs := (objs h)(lim h \<mapsto> MapObj Map.empty), lim := Suc (lim h) \<rparr>))"

definition map_assign :: "addr \<Rightarrow> key \<Rightarrow> hval \<Rightarrow> (heap, unit) state" where
  "map_assign a k v =
     State (\<lambda>h. ((), case objs h a of
                        Some (MapObj m) \<Rightarrow> h\<lparr> objs := (objs h)(a \<mapsto> MapObj (m(k \<mapsto> v))) \<rparr>
                      | _ \<Rightarrow> h))"

definition map_index :: "addr \<Rightarrow> key \<Rightarrow> (heap, hval option) state" where
  "map_index a k = State (\<lambda>h. (case objs h a of Some (MapObj m) \<Rightarrow> m k | _ \<Rightarrow> None, h))"

definition deref_receiver :: "(heap, OASH) state" where
  "deref_receiver = State (\<lambda>h. (receiver h, h))"

fun makeContentSchemaMapH_loop :: "ContentType list \<Rightarrow> addr \<Rightarrow> (heap, unit) state" where
  "makeContentSchemaMapH_loop [] contentSchemaMap = State_Monad.return ()"
| "makeContentSchemaMapH_loop (ct # content) contentSchemaMap = do {
     refMap \<leftarrow> make_map;
     map_assign refMap (KString keyRef) (HString (ContentType_Schema ct));
     schemaMap \<leftarrow> make_map;
     map_assign schemaMap (KString ''schema'') (HRef refMap);
     map_assign contentSchemaMap (KString (ContentType_Name ct)) (HRef schemaMap);
     makeContentSchemaMapH_loop content contentSchemaMap
   }"

definition makeContentSchemaMapH :: "ContentType list \<Rightarrow> (heap, addr) state" where
  "makeContentSchemaMapH content = do {
     contentSchemaMap \<leftarrow> make_map;
     makeContentSchemaMapH_loop content contentSchemaMap;
     State_Monad.return contentSchemaMap
   }"

definition makeRequestBodyMapH :: "RequestBody \<Rightarrow> (heap, addr) state" where
  "makeRequestBodyMapH reqBody = do {
     reqBodyMap \<leftarrow> make_map;
     map_assign reqBodyMap (KString keyDescription) (HString (RequestBody_Description reqBody));
     content \<leftarrow> makeContentSchemaMapH (RequestBody_Content reqBody);
     map_assign reqBodyMap (KString keyContent) (HRef content);
     State_Monad.return reqBodyMap
   }"

fun makeResponsesMapH_loop :: "Response list \<Rightarrow> addr \<Rightarrow> (heap, unit) state" where
  "makeResponsesMapH_loop [] responsesMap = State_Monad.return ()"
| "makeResponsesMapH_loop (resp # responses) responsesMap = do {
     codeBodyMap \<leftarrow> make_map;
     map_assign codeBodyMap (KString keyDescription) (HString (Response_Description resp));
     content \<leftarrow> makeContentSchemaMapH (Response_Content resp);
     map_assign codeBodyMap (KString keyContent) (HRef content);
     map_assign responsesMap (KUint (Response_Code resp)) (HRef codeBodyMap);
     makeResponsesMapH_loop responses responsesMap
   }"

definition makeResponsesMapH :: "Response list \<Rightarrow> (heap, addr) state" where
  "makeResponsesMapH responses = do {
     responsesMap \<leftarrow> make_map;
     makeResponsesMapH_loop responses responsesMap;
     State_Monad.return responsesMap
   }"

text \<open>
  \<open>makeSecurityMapH\<close>: \<^verbatim>\<open>securityMap[sec.AuthName] = sec.PermTypes\<close> assigns the slice
  header, so the map's entry and the input share one backing array.
\<close>

fun makeSecurityMapH_loop ::
  "SecurityEntityH list \<Rightarrow> addr list \<Rightarrow> (heap, addr list) state" where
  "makeSecurityMapH_loop [] securityMaps = State_Monad.return securityMaps"
| "makeSecurityMapH_loop (sec # se) securityMaps = do {
     securityMap \<leftarrow> make_map;
     map_assign securityMap (KString (SecurityEntityH_AuthName sec))
       (HSlice (SecurityEntityH_PermTypes sec));
     makeSecurityMapH_loop se (securityMaps @ [securityMap])
   }"

definition makeSecurityMapH :: "SecurityEntityH list \<Rightarrow> (heap, addr list) state" where
  "makeSecurityMapH se = makeSecurityMapH_loop se []"

fun makeComponentSchemasMapH_loop ::
  "(gvalue, gvalue) Schema list \<Rightarrow> addr \<Rightarrow> (heap, unit) state" where
  "makeComponentSchemasMapH_loop [] schemesMap = State_Monad.return ()"
| "makeComponentSchemasMapH_loop (s # schemas) schemesMap = do {
     scheme \<leftarrow> make_map;
     map_assign scheme (KString keyType) (HString (Schema_Type s));
     map_assign scheme (KString keyProperties) (HValue (Schema_Properties s));
     map_assign scheme (KString keyRef) (HString (Schema_Ref s));
     (if XMLEntry_Name (Schema_XML s) \<noteq> ''''
      then map_assign scheme (KString keyXML) (HXML (Schema_XML s))
      else State_Monad.return ());
     map_assign schemesMap (KString (Schema_Name s)) (HRef scheme);
     makeComponentSchemasMapH_loop schemas schemesMap
   }"

definition makeComponentSchemasMapH :: "(gvalue, gvalue) Schema list \<Rightarrow> (heap, addr) state" where
  "makeComponentSchemasMapH schemas = do {
     schemesMap \<leftarrow> make_map;
     makeComponentSchemasMapH_loop schemas schemesMap;
     State_Monad.return schemesMap
   }"

fun makeComponentSecuritySchemesMapH_loop ::
  "SecurityScheme list \<Rightarrow> addr \<Rightarrow> (heap, unit) state" where
  "makeComponentSecuritySchemesMapH_loop [] secSchemesMap = State_Monad.return ()"
| "makeComponentSecuritySchemesMapH_loop (ss # secSchemes) secSchemesMap = do {
     scheme \<leftarrow> make_map;
     map_assign scheme (KString keyName) (HString (SecurityScheme_Name ss));
     map_assign scheme (KString keyType) (HString (SecurityScheme_Type ss));
     (if SecurityScheme_In ss \<noteq> ''''
      then map_assign scheme (KString keyIn) (HString (SecurityScheme_In ss))
      else State_Monad.return ());
     map_assign secSchemesMap (KString (SecurityScheme_Name ss)) (HRef scheme);
     makeComponentSecuritySchemesMapH_loop secSchemes secSchemesMap
   }"

definition makeComponentSecuritySchemesMapH :: "SecurityScheme list \<Rightarrow> (heap, addr) state" where
  "makeComponentSecuritySchemesMapH secSchemes = do {
     secSchemesMap \<leftarrow> make_map;
     makeComponentSecuritySchemesMapH_loop secSchemes secSchemesMap;
     State_Monad.return secSchemesMap
   }"

fun makeComponentsMapH_loop ::
  "(gvalue, gvalue) Component list \<Rightarrow> addr \<Rightarrow> (heap, unit) state" where
  "makeComponentsMapH_loop [] cm = State_Monad.return ()"
| "makeComponentsMapH_loop (component # components) cm = do {
     schemas \<leftarrow> makeComponentSchemasMapH (Component_Schemas component);
     map_assign cm (KString keySchemas) (HRef schemas);
     secSchemes \<leftarrow> makeComponentSecuritySchemesMapH (Component_SecuritySchemes component);
     map_assign cm (KString keySecuritySchemes) (HRef secSchemes);
     makeComponentsMapH_loop components cm
   }"

definition makeComponentsMapH :: "(gvalue, gvalue) Component list \<Rightarrow> (heap, addr) state" where
  "makeComponentsMapH components = do {
     cm \<leftarrow> make_map;
     makeComponentsMapH_loop components cm;
     State_Monad.return cm
   }"

text \<open>
  In \<open>makeAllPathsMapH_loop\<close> the statement \<^verbatim>\<open>allPaths[path.Route][...] = pathMap\<close> reads
  the methods map of the route and assigns into it; the route has one by then.
  \<^verbatim>\<open>pathMap[keyTags] = path.Tags\<close> assigns the input's value.
\<close>

fun makeAllPathsMapH_loop ::
  "(string \<Rightarrow> string) \<Rightarrow> PathH list \<Rightarrow> addr \<Rightarrow> (heap, unit) state" where
  "makeAllPathsMapH_loop toLower [] allPaths = State_Monad.return ()"
| "makeAllPathsMapH_loop toLower (path # paths) allPaths = do {
     entry \<leftarrow> map_index allPaths (KString (PathH_Route path));
     (if entry = None
      then do {
        methods \<leftarrow> make_map;
        map_assign allPaths (KString (PathH_Route path)) (HRef methods)
      }
      else State_Monad.return ());
     pathMap \<leftarrow> make_map;
     map_assign pathMap (KString keyTags) (HValue (PathH_Tags path));
     map_assign pathMap (KString keySummary) (HString (PathH_Summary path));
     map_assign pathMap (KString keyOperationID) (HString (PathH_OperationID path));
     security \<leftarrow> makeSecurityMapH (PathH_Security path);
     map_assign pathMap (KString keySecurity) (HRefs security);
     requestBody \<leftarrow> makeRequestBodyMapH (PathH_RequestBody path);
     map_assign pathMap (KString keyRequestBody) (HRef requestBody);
     responses \<leftarrow> makeResponsesMapH (PathH_Responses path);
     map_assign pathMap (KString keyResponses) (HRef responses);
     methods \<leftarrow> map_index allPaths (KString (PathH_Route path));
     (case methods of
        Some (HRef m) \<Rightarrow> map_assign m (KString (toLower (PathH_HTTPMethod path))) (HRef pathMap)
      | _ \<Rightarrow> State_Monad.return ());
     makeAllPathsMapH_loop toLower paths allPaths
   }"

definition makeAllPathsMapH :: "(string \<Rightarrow> string) \<Rightarrow> PathH list \<Rightarrow> (heap, addr) state" where
  "makeAllPathsMapH toLower paths = do {
     allPaths \<leftarrow> make_map;
     makeAllPathsMapH_loop toLower paths allPaths;
     State_Monad.return allPaths
   }"

text \<open>
  \<open>transformToHybridOASH\<close>: the five copied fields are the receiver's values; \<^verbatim>\<open>Paths\<close> and
  \<^verbatim>\<open>Components\<close> are the references of the two maps built.
\<close>

record hybridOASH =
  OpenAPIH :: gvalue
  InfoH :: gvalue
  ExternalDocsH :: gvalue
  ServersH :: gvalue
  TagsH :: gvalue
  PathsH :: addr
  ComponentsH :: addr

definition transformToHybridOASH :: "(string \<Rightarrow> string) \<Rightarrow> (heap, hybridOASH) state" where
  "transformToHybridOASH toLower = do {
     oas \<leftarrow> deref_receiver;
     paths \<leftarrow> makeAllPathsMapH toLower (OASH_Paths oas);
     components \<leftarrow> makeComponentsMapH (OASH_Components oas);
     State_Monad.return
       \<lparr> OpenAPIH = OASH_OASVersion oas,
         InfoH = OASH_Info oas,
         ExternalDocsH = OASH_ExternalDocs oas,
         ServersH = OASH_Servers oas,
         TagsH = OASH_Tags oas,
         PathsH = paths,
         ComponentsH = components \<rparr>
   }"

text \<open>
  The objects a stored value refers to: \<open>made_of\<close> are the maps that the code has made,
  \<open>copied_of\<close> is what a value assigned from the input refers to (the backing array of a
  slice, the references inside a \<open>gvalue\<close> or inside the XML struct's further fields).
\<close>

primrec grefs :: "gvalue \<Rightarrow> addr set" where
  "grefs (Scalar s) = {}"
| "grefs (Reference a) = {a}"
| "grefs (Struct vs) = \<Union> (set (map grefs vs))"

fun slice_refs :: "slice \<Rightarrow> addr set" where
  "slice_refs (Slice a n) = set_option a"

fun made_of :: "hval \<Rightarrow> addr set" where
  "made_of (HRef a) = {a}"
| "made_of (HRefs as) = set as"
| "made_of _ = {}"

fun copied_of :: "hval \<Rightarrow> addr set" where
  "copied_of (HSlice s) = slice_refs s"
| "copied_of (HValue v) = grefs v"
| "copied_of (HXML x) = grefs (XMLEntry.more x)"
| "copied_of _ = {}"

text \<open>What the values of the input that the transform assigns refer to.\<close>

definition security_refs :: "SecurityEntityH list \<Rightarrow> addr set" where
  "security_refs se = \<Union> (set (map (\<lambda>sec. slice_refs (SecurityEntityH_PermTypes sec)) se))"

definition path_refs :: "PathH \<Rightarrow> addr set" where
  "path_refs path = grefs (PathH_Tags path) \<union> security_refs (PathH_Security path)"

definition schema_refs :: "(gvalue, gvalue) Schema \<Rightarrow> addr set" where
  "schema_refs s = grefs (Schema_Properties s) \<union> grefs (XMLEntry.more (Schema_XML s))"

definition component_refs :: "(gvalue, gvalue) Component \<Rightarrow> addr set" where
  "component_refs component = \<Union> (set (map schema_refs (Component_Schemas component)))"

definition input_refs :: "OASH \<Rightarrow> addr set" where
  "input_refs oas =
     \<Union> (set (map path_refs (OASH_Paths oas)))
     \<union> \<Union> (set (map component_refs (OASH_Components oas)))"

text \<open>
  What every step of a run that started in the store \<open>h0\<close> maintains: the allocation
  limit only grows, the receiver and every object that existed in \<open>h0\<close> are as they were,
  every object allocated since is a map, and such a map holds, as maps made by the code, only maps allocated since,
  and, through values assigned from the input, only references in \<open>G\<close>.
  \<open>builds G h0 A p R\<close> says that the program \<open>p\<close>, given that the addresses \<open>A\<close> were
  allocated since \<open>h0\<close>, maintains this and returns a result whose addresses \<open>R\<close> were
  allocated since \<open>h0\<close>.
\<close>

definition since :: "heap \<Rightarrow> heap \<Rightarrow> addr set" where
  "since h0 h = {lim h0..<lim h}"

definition extends :: "addr set \<Rightarrow> heap \<Rightarrow> heap \<Rightarrow> bool" where
  "extends G h0 h \<longleftrightarrow>
     lim h0 \<le> lim h
     \<and> receiver h = receiver h0
     \<and> (\<forall>a. a < lim h0 \<longrightarrow> objs h a = objs h0 a)
     \<and> (\<forall>a. a \<in> since h0 h \<longrightarrow> (\<exists>m. objs h a = Some (MapObj m)))
     \<and> (\<forall>a m v. a \<in> since h0 h \<and> objs h a = Some (MapObj m) \<and> v \<in> ran m \<longrightarrow>
           made_of v \<subseteq> since h0 h \<and> copied_of v \<subseteq> G)"

definition builds ::
  "addr set \<Rightarrow> heap \<Rightarrow> addr set \<Rightarrow> (heap, 'r) state \<Rightarrow> ('r \<Rightarrow> addr set) \<Rightarrow> bool" where
  "builds G h0 A p R \<longleftrightarrow>
     (\<forall>h. extends G h0 h \<and> A \<subseteq> since h0 h \<longrightarrow>
        (case run_state p h of
           (r, h') \<Rightarrow> extends G h0 h' \<and> lim h \<le> lim h' \<and> R r \<subseteq> since h0 h'))"

text \<open>
  A store whose source graph has one route with one security entity; the backing array of
  its permission list is the object at address 0.
\<close>

definition heap1 :: heap where
  "heap1 =
     \<lparr> receiver =
         \<lparr> OASH_OASVersion = Scalar ''3.0.1'', OASH_Info = Scalar ''info'',
           OASH_ExternalDocs = Scalar ''docs'', OASH_Servers = Scalar ''servers'',
           OASH_Tags = Scalar ''tags'',
           OASH_Paths =
             [\<lparr> PathH_Route = ''/users'', PathH_HTTPMethod = ''GET'',
                PathH_Tags = Scalar ''users'', PathH_Summary = ''list users'',
                PathH_OperationID = ''listUsers'',
                PathH_Security =
                  [\<lparr> SecurityEntityH_AuthName = ''oauth'',
                     SecurityEntityH_PermTypes = Slice (Some 0) 1 \<rparr>],
                PathH_RequestBody =
                  \<lparr> RequestBody_Description = '''', RequestBody_Content = [] \<rparr>,
                PathH_Responses = [] \<rparr>],
           OASH_Components = [] \<rparr>,
       objs = [0 \<mapsto> ArrayObj [''read:users'']],
       lim = 1 \<rparr>"

section \<open>Properties\<close>

lemmas key_defs =
  keyTags_def keySummary_def keyOperationID_def keySecurity_def keyRequestBody_def
  keyResponses_def keyDescription_def keyContent_def keyRef_def keySchemas_def
  keySecuritySchemes_def keyName_def keyType_def keyProperties_def keyIn_def keyXML_def

subsection \<open>Last assignment wins in the keyed loops\<close>

text \<open>
  \<open>find P (rev xs)\<close> is the last element of \<open>xs\<close> that satisfies \<open>P\<close>. Each keyed loop
  leaves under a key what its last element with that key assigns.
\<close>

lemma find_append:
  "find P (xs @ ys) = (case find P xs of None \<Rightarrow> find P ys | Some x \<Rightarrow> Some x)"
  by (induction xs) simp_all

lemma find_rev_Cons:
  "find P (rev (x # xs)) =
     (case find P (rev xs) of None \<Rightarrow> (if P x then Some x else None) | Some y \<Rightarrow> Some y)"
  by (simp add: find_append split: option.split)

lemma makeResponsesMap_loop_lookup:
  "makeResponsesMap_loop responses m code =
     (case find (\<lambda>r. Response_Code r = code) (rev responses) of
        None \<Rightarrow> m code
      | Some r \<Rightarrow> Some (IMap (codeBodyMap r)))"
proof (induction responses arbitrary: m)
  case Nil
  show ?case by simp
next
  case (Cons resp responses)
  show ?case
    unfolding makeResponsesMap_loop.simps Cons.IH find_rev_Cons
    by (simp split: option.split)
qed

lemma makeComponentSchemasMap_loop_lookup:
  "makeComponentSchemasMap_loop schemas m name =
     (case find (\<lambda>s. Schema_Name s = name) (rev schemas) of
        None \<Rightarrow> m name
      | Some s \<Rightarrow> Some (IMap (schemaScheme s)))"
proof (induction schemas arbitrary: m)
  case Nil
  show ?case by simp
next
  case (Cons s schemas)
  show ?case
    unfolding makeComponentSchemasMap_loop.simps Cons.IH find_rev_Cons
    by (simp split: option.split)
qed

lemma makeComponentSecuritySchemesMap_loop_lookup:
  "makeComponentSecuritySchemesMap_loop secSchemes m name =
     (case find (\<lambda>ss. SecurityScheme_Name ss = name) (rev secSchemes) of
        None \<Rightarrow> m name
      | Some ss \<Rightarrow> Some (IMap (secScheme ss)))"
proof (induction secSchemes arbitrary: m)
  case Nil
  show ?case by simp
next
  case (Cons ss secSchemes)
  show ?case
    unfolding makeComponentSecuritySchemesMap_loop.simps Cons.IH find_rev_Cons
    by (simp split: option.split)
qed

lemma makeComponentsMap_loop_snoc:
  "makeComponentsMap_loop (components @ [component]) cm =
     (makeComponentsMap_loop components cm)
       (keySchemas \<mapsto> IMap (makeComponentSchemasMap (Component_Schemas component)),
        keySecuritySchemes \<mapsto>
          IMap (makeComponentSecuritySchemesMap (Component_SecuritySchemes component)))"
  by (induction components arbitrary: cm) simp_all

lemma makeComponentsMap_loop_other:
  "k \<noteq> keySchemas \<Longrightarrow> k \<noteq> keySecuritySchemes \<Longrightarrow> makeComponentsMap_loop components cm k = cm k"
  by (induction components arbitrary: cm) simp_all

lemma makeComponentsMap_last:
  assumes "components \<noteq> []"
  shows "makeComponentsMap components =
     [keySchemas \<mapsto> IMap (makeComponentSchemasMap (Component_Schemas (last components))),
      keySecuritySchemes \<mapsto>
        IMap (makeComponentSecuritySchemesMap (Component_SecuritySchemes (last components)))]"
proof -
  from assms obtain front c where split: "components = front @ [c]"
    by (metis append_butlast_last_id)
  show ?thesis
    unfolding makeComponentsMap_def split makeComponentsMap_loop_snoc
    by (rule ext) (simp add: makeComponentsMap_loop_other)
qed

subsection \<open>Components: the last entry wins\<close>

text \<open>
  C1. When the Components list has two or more entries, \<open>makeComponentsMap\<close> returns the
  map built from the last entry alone: its \<^verbatim>\<open>schemas\<close> and \<^verbatim>\<open>securitySchemes\<close> values are
  the sub-maps of the last entry, and nothing of an earlier entry remains.
\<close>

theorem makeComponentsMap_last_wins:
  assumes "2 \<le> length components"
  shows "makeComponentsMap components = makeComponentsMap [last components]
    \<and> makeComponentsMap components keySchemas =
        Some (IMap (makeComponentSchemasMap (Component_Schemas (last components))))
    \<and> makeComponentsMap components keySecuritySchemes =
        Some (IMap (makeComponentSecuritySchemesMap
                (Component_SecuritySchemes (last components))))"
proof -
  from assms have nonempty: "components \<noteq> []"
    by auto
  have distinct_keys: "keySchemas \<noteq> keySecuritySchemes"
    by (simp add: key_defs)
  show ?thesis
    unfolding makeComponentsMap_last [OF nonempty]
    using distinct_keys by (simp add: makeComponentsMap_last)
qed

theorem makeComponentsMap_last_wins_witness:
  "2 \<le> length
      [\<lparr> Component_Schemas =
           [\<lparr> Schema_Name = ''Old'', Schema_Type = ''object'', Schema_Properties = (),
              Schema_Ref = '''', Schema_XML = \<lparr> XMLEntry_Name = '''' \<rparr> \<rparr>],
         Component_SecuritySchemes = [] \<rparr>,
       \<lparr> Component_Schemas =
           [\<lparr> Schema_Name = ''New'', Schema_Type = ''object'', Schema_Properties = (),
              Schema_Ref = '''', Schema_XML = \<lparr> XMLEntry_Name = '''' \<rparr> \<rparr>],
         Component_SecuritySchemes = [] \<rparr>]
   \<and> makeComponentsMap
      [\<lparr> Component_Schemas =
           [\<lparr> Schema_Name = ''Old'', Schema_Type = ''object'', Schema_Properties = (),
              Schema_Ref = '''', Schema_XML = \<lparr> XMLEntry_Name = '''' \<rparr> \<rparr>],
         Component_SecuritySchemes = [] \<rparr>,
       \<lparr> Component_Schemas =
           [\<lparr> Schema_Name = ''New'', Schema_Type = ''object'', Schema_Properties = (),
              Schema_Ref = '''', Schema_XML = \<lparr> XMLEntry_Name = '''' \<rparr> \<rparr>],
         Component_SecuritySchemes = [] \<rparr>] keySchemas =
       Some (IMap (makeComponentSchemasMap
         [\<lparr> Schema_Name = ''New'', Schema_Type = ''object'', Schema_Properties = (),
            Schema_Ref = '''', Schema_XML = \<lparr> XMLEntry_Name = '''' \<rparr> \<rparr>]))
   \<and> (makeComponentSchemasMap
         [\<lparr> Schema_Name = ''New'', Schema_Type = ''object'', Schema_Properties = (),
            Schema_Ref = '''', Schema_XML = \<lparr> XMLEntry_Name = '''' \<rparr> \<rparr>]
        :: string \<rightharpoonup> (unit, unit) iface) ''Old'' = None"
  using makeComponentsMap_last_wins
    [of "[\<lparr> Component_Schemas =
           [\<lparr> Schema_Name = ''Old'', Schema_Type = ''object'', Schema_Properties = (),
              Schema_Ref = '''', Schema_XML = \<lparr> XMLEntry_Name = '''' \<rparr> \<rparr>],
         Component_SecuritySchemes = [] \<rparr>,
       \<lparr> Component_Schemas =
           [\<lparr> Schema_Name = ''New'', Schema_Type = ''object'', Schema_Properties = (),
              Schema_Ref = '''', Schema_XML = \<lparr> XMLEntry_Name = '''' \<rparr> \<rparr>],
         Component_SecuritySchemes = [] \<rparr>]"]
  by (simp add: makeComponentsMap_def makeComponentSchemasMap_def key_defs)

subsection \<open>Responses: keyed by status code, the last one wins\<close>

text \<open>
  C4. \<open>makeResponsesMap\<close> is a total function into a map (it has no error result). Under a
  status code it holds the \<^verbatim>\<open>{description, content}\<close> map of the last response of the list
  with that code, and nothing under a code that no response has: a later response with
  the same code replaces an earlier one.
\<close>

theorem makeResponsesMap_last_wins:
  "makeResponsesMap responses code =
     (case find (\<lambda>r. Response_Code r = code) (rev responses) of
        None \<Rightarrow> None
      | Some r \<Rightarrow>
          Some (IMap [keyDescription \<mapsto> IString (Response_Description r),
                      keyContent \<mapsto> IMap (makeContentSchemaMap (Response_Content r))]))"
  by (simp add: makeResponsesMap_def makeResponsesMap_loop_lookup codeBodyMap_def
      split: option.split)

theorem makeResponsesMap_last_wins_witness:
  "(makeResponsesMap
      [\<lparr> Response_Code = 200, Response_Description = ''first'', Response_Content = [] \<rparr>,
       \<lparr> Response_Code = 200, Response_Description = ''second'', Response_Content = [] \<rparr>]
      :: nat \<rightharpoonup> (unit, unit) iface) 200 =
     Some (IMap [keyDescription \<mapsto> IString ''second'', keyContent \<mapsto> IMap Map.empty])
   \<and> (makeResponsesMap
      [\<lparr> Response_Code = 200, Response_Description = ''first'', Response_Content = [] \<rparr>,
       \<lparr> Response_Code = 200, Response_Description = ''second'', Response_Content = [] \<rparr>]
      :: nat \<rightharpoonup> (unit, unit) iface) 404 = None"
  using
    makeResponsesMap_last_wins
      [of "[\<lparr> Response_Code = 200, Response_Description = ''first'', Response_Content = [] \<rparr>,
            \<lparr> Response_Code = 200, Response_Description = ''second'', Response_Content = [] \<rparr>]"
          200, where ?'a = unit and ?'b = unit]
    makeResponsesMap_last_wins
      [of "[\<lparr> Response_Code = 200, Response_Description = ''first'', Response_Content = [] \<rparr>,
            \<lparr> Response_Code = 200, Response_Description = ''second'', Response_Content = [] \<rparr>]"
          404, where ?'a = unit and ?'b = unit]
  by (simp add: makeContentSchemaMap_def)

subsection \<open>Optional keys of component schemas and security schemes\<close>

text \<open>
  C5. The map built for a component schema has the key \<^verbatim>\<open>xml\<close> exactly when the schema's
  XML name is not empty; its value is then the schema's XML struct as it is, and with an
  empty name the key is absent. \<open>makeComponentSchemasMap\<close> stores that map under the
  schema's name.
\<close>

theorem schemaScheme_xml:
  "(schemaScheme s :: string \<rightharpoonup> ('a, 'x) iface) keyXML =
     (if XMLEntry_Name (Schema_XML s) = '''' then None else Some (IXML (Schema_XML s)))
   \<and> (keyXML \<in> dom (schemaScheme s :: string \<rightharpoonup> ('a, 'x) iface)
        \<longleftrightarrow> XMLEntry_Name (Schema_XML s) \<noteq> '''')
   \<and> (makeComponentSchemasMap (schemas @ [s]) :: string \<rightharpoonup> ('a, 'x) iface) (Schema_Name s) =
        Some (IMap (schemaScheme s))"
  by (simp add: schemaScheme_def key_defs makeComponentSchemasMap_def
      makeComponentSchemasMap_loop_lookup dom_def)

theorem schemaScheme_xml_witness:
  "(schemaScheme
      \<lparr> Schema_Name = ''Pet'', Schema_Type = ''object'', Schema_Properties = (),
        Schema_Ref = '''', Schema_XML = \<lparr> XMLEntry_Name = ''pet'' \<rparr> \<rparr>
      :: string \<rightharpoonup> (unit, unit) iface) keyXML = Some (IXML \<lparr> XMLEntry_Name = ''pet'' \<rparr>)
   \<and> (schemaScheme
      \<lparr> Schema_Name = ''Pet'', Schema_Type = ''object'', Schema_Properties = (),
        Schema_Ref = '''', Schema_XML = \<lparr> XMLEntry_Name = '''' \<rparr> \<rparr>
      :: string \<rightharpoonup> (unit, unit) iface) keyXML = None"
  using
    schemaScheme_xml
      [of "\<lparr> Schema_Name = ''Pet'', Schema_Type = ''object'', Schema_Properties = (),
             Schema_Ref = '''', Schema_XML = \<lparr> XMLEntry_Name = ''pet'' \<rparr> \<rparr>" "[]"]
    schemaScheme_xml
      [of "\<lparr> Schema_Name = ''Pet'', Schema_Type = ''object'', Schema_Properties = (),
             Schema_Ref = '''', Schema_XML = \<lparr> XMLEntry_Name = '''' \<rparr> \<rparr>" "[]"]
  by simp

text \<open>
  C6. The map built for a security scheme always has the keys \<^verbatim>\<open>name\<close> and \<^verbatim>\<open>type\<close>, and
  has the key \<^verbatim>\<open>in\<close> exactly when the scheme's location is not empty; its value is then
  the location string itself. \<open>makeComponentSecuritySchemesMap\<close> stores that map under the
  scheme's name.
\<close>

theorem secScheme_in:
  "(secScheme ss :: string \<rightharpoonup> ('a, 'x) iface) keyIn =
     (if SecurityScheme_In ss = '''' then None else Some (IString (SecurityScheme_In ss)))
   \<and> (keyIn \<in> dom (secScheme ss :: string \<rightharpoonup> ('a, 'x) iface)
        \<longleftrightarrow> SecurityScheme_In ss \<noteq> '''')
   \<and> (secScheme ss :: string \<rightharpoonup> ('a, 'x) iface) keyName = Some (IString (SecurityScheme_Name ss))
   \<and> (secScheme ss :: string \<rightharpoonup> ('a, 'x) iface) keyType = Some (IString (SecurityScheme_Type ss))
   \<and> (makeComponentSecuritySchemesMap (secSchemes @ [ss]) :: string \<rightharpoonup> ('a, 'x) iface)
        (SecurityScheme_Name ss) = Some (IMap (secScheme ss))"
  by (simp add: secScheme_def key_defs makeComponentSecuritySchemesMap_def
      makeComponentSecuritySchemesMap_loop_lookup dom_def)

theorem secScheme_in_witness:
  "(secScheme
      \<lparr> SecurityScheme_Name = ''api_key'', SecurityScheme_Type = ''apiKey'',
        SecurityScheme_In = ''header'' \<rparr> :: string \<rightharpoonup> (unit, unit) iface) keyIn =
     Some (IString ''header'')
   \<and> (secScheme
      \<lparr> SecurityScheme_Name = ''basic'', SecurityScheme_Type = ''http'',
        SecurityScheme_In = '''' \<rparr> :: string \<rightharpoonup> (unit, unit) iface) keyIn = None
   \<and> (secScheme
      \<lparr> SecurityScheme_Name = ''basic'', SecurityScheme_Type = ''http'',
        SecurityScheme_In = '''' \<rparr> :: string \<rightharpoonup> (unit, unit) iface) keyName =
     Some (IString ''basic'')"
  using
    secScheme_in
      [of "\<lparr> SecurityScheme_Name = ''api_key'', SecurityScheme_Type = ''apiKey'',
             SecurityScheme_In = ''header'' \<rparr>" "[]", where ?'a = unit and ?'x = unit]
    secScheme_in
      [of "\<lparr> SecurityScheme_Name = ''basic'', SecurityScheme_Type = ''http'',
             SecurityScheme_In = '''' \<rparr>" "[]", where ?'a = unit and ?'x = unit]
  by simp

subsection \<open>The empty document\<close>

text \<open>
  C7. With no route and no component, the document still has its seven top-level keys
  \<^verbatim>\<open>openapi\<close>, \<^verbatim>\<open>info\<close>, \<^verbatim>\<open>externalDocs\<close>, \<^verbatim>\<open>servers\<close>, \<^verbatim>\<open>tags\<close>, \<^verbatim>\<open>paths\<close> and
  \<^verbatim>\<open>components\<close>; the first five carry the input's values, and \<^verbatim>\<open>paths\<close> and
  \<^verbatim>\<open>components\<close> are allocated empty maps, not nil.
\<close>

theorem transformToHybridOAS_empty:
  assumes "OAS_Paths oas = []" and "OAS_Components oas = []"
  shows "hybridOAS_fields (transformToHybridOAS toLower oas) =
     [(''openapi'', FValue (OAS_OASVersion oas)),
      (''info'', FValue (OAS_Info oas)),
      (''externalDocs'', FValue (OAS_ExternalDocs oas)),
      (''servers'', FValue (OAS_Servers oas)),
      (''tags'', FValue (OAS_Tags oas)),
      (''paths'', FPaths (Some Map.empty)),
      (''components'', FComponents (Some Map.empty))]"
  using assms
  by (simp add: hybridOAS_fields_def transformToHybridOAS_def makeAllPathsMap_def
      makeComponentsMap_def)

theorem transformToHybridOAS_empty_witness:
  "OAS_Paths oas_empty = [] \<and> OAS_Components oas_empty = []
   \<and> map fst (hybridOAS_fields (transformToHybridOAS asciiToLower oas_empty)) =
       [''openapi'', ''info'', ''externalDocs'', ''servers'', ''tags'', ''paths'', ''components'']
   \<and> Paths (transformToHybridOAS asciiToLower oas_empty) = Some Map.empty
   \<and> Components (transformToHybridOAS asciiToLower oas_empty) = Some Map.empty"
proof -
  have empty: "OAS_Paths oas_empty = []" "OAS_Components oas_empty = []"
    by (simp_all add: oas_empty_def)
  have "map fst (hybridOAS_fields (transformToHybridOAS asciiToLower oas_empty)) =
       [''openapi'', ''info'', ''externalDocs'', ''servers'', ''tags'', ''paths'', ''components'']"
    unfolding transformToHybridOAS_empty [OF empty] by simp
  moreover have "Paths (transformToHybridOAS asciiToLower oas_empty) = Some Map.empty"
    "Components (transformToHybridOAS asciiToLower oas_empty) = Some Map.empty"
    by (simp_all add: transformToHybridOAS_def makeAllPathsMap_def makeComponentsMap_def
        oas_empty_def)
  ultimately show ?thesis
    using empty by simp
qed

subsection \<open>The driver\<close>

lemmas driver_defs =
  BuildDocs_def marshalToYAML_def createYAMLOutFile_def writeAndFlush_def
  call_def opened_def file_Close_def

lemma BuildDocs_validation_fails:
  assumes "initCallStackForRoutes env oas = (Some e, oas1)"
  shows "BuildDocs env oas conf w =
     (Some (Errorf ''failed initiating call stack for registered routes'' (Cause e)),
      w\<lparr> calls := calls w @ [CallInit] \<rparr>)"
  using assms by (simp add: driver_defs)

lemma BuildDocs_serialization_fails:
  assumes "initCallStackForRoutes env oas = (None, oas1)"
    and "yaml_Marshal env (transformToHybridOAS (strings_ToLower env) oas1) = Inl e"
  shows "BuildDocs env oas conf w =
     (Some (Errorf ''marshaling issue occurred'' (Errorf ''failed marshaling to yaml'' (Cause e))),
      w\<lparr> calls := calls w @ [CallInit, CallMarshal] \<rparr>)"
  using assms by (simp add: driver_defs)

lemma BuildDocs_create_fails:
  assumes "initCallStackForRoutes env oas = (None, oas1)"
    and "yaml_Marshal env (transformToHybridOAS (strings_ToLower env) oas1) = Inr yml"
    and "os_Create env (getPathFromFirstElement conf) = Some e"
  shows "BuildDocs env oas conf w =
     (Some (Errorf ''an issue occurred while saving to YAML output''
        (Errorf ''failed creating yaml output file'' (Cause e))),
      w\<lparr> calls := calls w @ [CallInit, CallMarshal, CallCreate (getPathFromFirstElement conf)] \<rparr>)"
  using assms by (simp add: driver_defs)

lemma BuildDocs_write_fails:
  assumes "initCallStackForRoutes env oas = (None, oas1)"
    and "yaml_Marshal env (transformToHybridOAS (strings_ToLower env) oas1) = Inr yml"
    and "os_Create env (getPathFromFirstElement conf) = None"
    and "writer_Write env yml = Some e"
  shows "BuildDocs env oas conf w =
     (Some (Errorf ''an issue occurred while saving to YAML output''
        (Errorf ''writing issue occurred''
          (Errorf ''failed writing to YAML output file'' (Cause e)))),
      w\<lparr> calls := calls w @ [CallInit, CallMarshal, CallCreate (getPathFromFirstElement conf),
                              CallWrite yml, CallClose] \<rparr>)"
  using assms by (simp add: driver_defs)

lemma BuildDocs_flush_fails:
  assumes "initCallStackForRoutes env oas = (None, oas1)"
    and "yaml_Marshal env (transformToHybridOAS (strings_ToLower env) oas1) = Inr yml"
    and "os_Create env (getPathFromFirstElement conf) = None"
    and "writer_Write env yml = None"
    and "writer_Flush env = Some e"
  shows "BuildDocs env oas conf w =
     (Some (Errorf ''an issue occurred while saving to YAML output''
        (Errorf ''writing issue occurred''
          (Errorf ''failed flushing output writer'' (Cause e)))),
      w\<lparr> calls := calls w @ [CallInit, CallMarshal, CallCreate (getPathFromFirstElement conf),
                              CallWrite yml, CallFlush, CallClose] \<rparr>)"
  using assms by (simp add: driver_defs)

lemma BuildDocs_succeeds:
  assumes "initCallStackForRoutes env oas = (None, oas1)"
    and "yaml_Marshal env (transformToHybridOAS (strings_ToLower env) oas1) = Inr yml"
    and "os_Create env (getPathFromFirstElement conf) = None"
    and "writer_Write env yml = None"
    and "writer_Flush env = None"
  shows "BuildDocs env oas conf w =
     (None,
      w\<lparr> calls := calls w @ [CallInit, CallMarshal, CallCreate (getPathFromFirstElement conf),
                              CallWrite yml, CallFlush, CallClose] \<rparr>)"
  using assms by (simp add: driver_defs)

lemma collaborator_outcomes:
  fixes env :: "('a, 'x, 'e) collaborators"
  obtains
    (validation_fails) e oas1 where "initCallStackForRoutes env oas = (Some e, oas1)"
  | (serialization_fails) e oas1 where "initCallStackForRoutes env oas = (None, oas1)"
      and "yaml_Marshal env (transformToHybridOAS (strings_ToLower env) oas1) = Inl e"
  | (create_fails) e oas1 yml where "initCallStackForRoutes env oas = (None, oas1)"
      and "yaml_Marshal env (transformToHybridOAS (strings_ToLower env) oas1) = Inr yml"
      and "os_Create env outPath = Some e"
  | (write_fails) e oas1 yml where "initCallStackForRoutes env oas = (None, oas1)"
      and "yaml_Marshal env (transformToHybridOAS (strings_ToLower env) oas1) = Inr yml"
      and "os_Create env outPath = None"
      and "writer_Write env yml = Some e"
  | (flush_fails) e oas1 yml where "initCallStackForRoutes env oas = (None, oas1)"
      and "yaml_Marshal env (transformToHybridOAS (strings_ToLower env) oas1) = Inr yml"
      and "os_Create env outPath = None"
      and "writer_Write env yml = None"
      and "writer_Flush env = Some e"
  | (all_succeed) oas1 yml where "initCallStackForRoutes env oas = (None, oas1)"
      and "yaml_Marshal env (transformToHybridOAS (strings_ToLower env) oas1) = Inr yml"
      and "os_Create env outPath = None"
      and "writer_Write env yml = None"
      and "writer_Flush env = None"
proof -
  obtain r oas1 where init: "initCallStackForRoutes env oas = (r, oas1)"
    by (cases "initCallStackForRoutes env oas")
  show thesis
  proof (cases r)
    case (Some e)
    with init validation_fails show thesis by blast
  next
    case None
    note init = init [unfolded None]
    show thesis
    proof (cases "yaml_Marshal env (transformToHybridOAS (strings_ToLower env) oas1)")
      case (Inl e)
      with init serialization_fails show thesis by blast
    next
      case (Inr yml)
      show thesis
      proof (cases "os_Create env outPath")
        case (Some e)
        with init Inr create_fails show thesis by blast
      next
        case no_create_error: None
        show thesis
        proof (cases "writer_Write env yml")
          case (Some e)
          with init Inr no_create_error write_fails show thesis by blast
        next
          case no_write_error: None
          show thesis
          proof (cases "writer_Flush env")
            case (Some e)
            with init Inr no_create_error no_write_error flush_fails show thesis by blast
          next
            case None
            with init Inr no_create_error no_write_error all_succeed show thesis by blast
          qed
        qed
      qed
    qed
  qed
qed

lemma BuildDocs_open_handles:
  "open_handles (snd (BuildDocs env oas conf w)) = open_handles w"
proof (cases rule: collaborator_outcomes
    [where env = env and oas = oas and outPath = "getPathFromFirstElement conf"])
  case validation_fails
  then show ?thesis by (simp add: BuildDocs_validation_fails)
next
  case serialization_fails
  then show ?thesis by (simp add: BuildDocs_serialization_fails)
next
  case create_fails
  then show ?thesis by (simp add: BuildDocs_create_fails)
next
  case write_fails
  then show ?thesis by (simp add: BuildDocs_write_fails)
next
  case flush_fails
  then show ?thesis by (simp add: BuildDocs_flush_fails)
next
  case all_succeed
  then show ?thesis by (simp add: BuildDocs_succeeds)
qed

lemma BuildDocs_nil_iff:
  "fst (BuildDocs env oas conf w) = None \<longleftrightarrow>
     (\<exists>oas1 yml.
        initCallStackForRoutes env oas = (None, oas1)
        \<and> yaml_Marshal env (transformToHybridOAS (strings_ToLower env) oas1) = Inr yml
        \<and> os_Create env (getPathFromFirstElement conf) = None
        \<and> writer_Write env yml = None
        \<and> writer_Flush env = None)"
proof (cases rule: collaborator_outcomes
    [where env = env and oas = oas and outPath = "getPathFromFirstElement conf"])
  case validation_fails
  then show ?thesis by (simp add: BuildDocs_validation_fails)
next
  case serialization_fails
  then show ?thesis by (simp add: BuildDocs_serialization_fails)
next
  case create_fails
  then show ?thesis by (simp add: BuildDocs_create_fails)
next
  case write_fails
  then show ?thesis by (simp add: BuildDocs_write_fails)
next
  case flush_fails
  then show ?thesis by (simp add: BuildDocs_flush_fails)
next
  case all_succeed
  then show ?thesis by (simp add: BuildDocs_succeeds)
qed

text \<open>
  C8. \<open>BuildDocs\<close> returns nil exactly when validation, serialization and the three
  output steps (create, write, flush) all succeed. When a stage fails, the collaborator's
  error comes back wrapped, the outermost message naming the stage, and no collaborator
  is called again or after the failure: the calls made are the ones listed, each once.
  A handle is opened only by a successful create and is then closed on every return, so
  the number of open handles is the same before and after on every path.
\<close>

theorem BuildDocs_stages:
  fixes env :: "('a, 'x, 'e) collaborators"
  shows
  "(fst (BuildDocs env oas conf w) = None \<longleftrightarrow>
      (\<exists>oas1 yml.
         initCallStackForRoutes env oas = (None, oas1)
         \<and> yaml_Marshal env (transformToHybridOAS (strings_ToLower env) oas1) = Inr yml
         \<and> os_Create env (getPathFromFirstElement conf) = None
         \<and> writer_Write env yml = None
         \<and> writer_Flush env = None))
   \<and> (\<forall>e oas1.
         initCallStackForRoutes env oas = (Some e, oas1) \<longrightarrow>
         BuildDocs env oas conf w =
           (Some (Errorf ''failed initiating call stack for registered routes'' (Cause e)),
            w\<lparr> calls := calls w @ [CallInit] \<rparr>))
   \<and> (\<forall>e oas1.
         initCallStackForRoutes env oas = (None, oas1)
         \<and> yaml_Marshal env (transformToHybridOAS (strings_ToLower env) oas1) = Inl e \<longrightarrow>
         BuildDocs env oas conf w =
           (Some (Errorf ''marshaling issue occurred''
              (Errorf ''failed marshaling to yaml'' (Cause e))),
            w\<lparr> calls := calls w @ [CallInit, CallMarshal] \<rparr>))
   \<and> (\<forall>e oas1 yml.
         initCallStackForRoutes env oas = (None, oas1)
         \<and> yaml_Marshal env (transformToHybridOAS (strings_ToLower env) oas1) = Inr yml
         \<and> os_Create env (getPathFromFirstElement conf) = Some e \<longrightarrow>
         BuildDocs env oas conf w =
           (Some (Errorf ''an issue occurred while saving to YAML output''
              (Errorf ''failed creating yaml output file'' (Cause e))),
            w\<lparr> calls := calls w @
                 [CallInit, CallMarshal, CallCreate (getPathFromFirstElement conf)] \<rparr>))
   \<and> (\<forall>e oas1 yml.
         initCallStackForRoutes env oas = (None, oas1)
         \<and> yaml_Marshal env (transformToHybridOAS (strings_ToLower env) oas1) = Inr yml
         \<and> os_Create env (getPathFromFirstElement conf) = None
         \<and> writer_Write env yml = Some e \<longrightarrow>
         BuildDocs env oas conf w =
           (Some (Errorf ''an issue occurred while saving to YAML output''
              (Errorf ''writing issue occurred''
                (Errorf ''failed writing to YAML output file'' (Cause e)))),
            w\<lparr> calls := calls w @
                 [CallInit, CallMarshal, CallCreate (getPathFromFirstElement conf),
                  CallWrite yml, CallClose] \<rparr>))
   \<and> (\<forall>e oas1 yml.
         initCallStackForRoutes env oas = (None, oas1)
         \<and> yaml_Marshal env (transformToHybridOAS (strings_ToLower env) oas1) = Inr yml
         \<and> os_Create env (getPathFromFirstElement conf) = None
         \<and> writer_Write env yml = None
         \<and> writer_Flush env = Some e \<longrightarrow>
         BuildDocs env oas conf w =
           (Some (Errorf ''an issue occurred while saving to YAML output''
              (Errorf ''writing issue occurred''
                (Errorf ''failed flushing output writer'' (Cause e)))),
            w\<lparr> calls := calls w @
                 [CallInit, CallMarshal, CallCreate (getPathFromFirstElement conf),
                  CallWrite yml, CallFlush, CallClose] \<rparr>))
   \<and> (\<forall>oas1 yml.
         initCallStackForRoutes env oas = (None, oas1)
         \<and> yaml_Marshal env (transformToHybridOAS (strings_ToLower env) oas1) = Inr yml
         \<and> os_Create env (getPathFromFirstElement conf) = None
         \<and> writer_Write env yml = None
         \<and> writer_Flush env = None \<longrightarrow>
         BuildDocs env oas conf w =
           (None,
            w\<lparr> calls := calls w @
                 [CallInit, CallMarshal, CallCreate (getPathFromFirstElement conf),
                  CallWrite yml, CallFlush, CallClose] \<rparr>))
   \<and> open_handles (snd (BuildDocs env oas conf w)) = open_handles w"
proof (intro conjI allI impI)
  show "fst (BuildDocs env oas conf w) = None \<longleftrightarrow>
      (\<exists>oas1 yml.
         initCallStackForRoutes env oas = (None, oas1)
         \<and> yaml_Marshal env (transformToHybridOAS (strings_ToLower env) oas1) = Inr yml
         \<and> os_Create env (getPathFromFirstElement conf) = None
         \<and> writer_Write env yml = None
         \<and> writer_Flush env = None)"
    by (rule BuildDocs_nil_iff)
  show "open_handles (snd (BuildDocs env oas conf w)) = open_handles w"
    by (rule BuildDocs_open_handles)
qed (simp_all add: BuildDocs_validation_fails BuildDocs_serialization_fails
    BuildDocs_create_fails BuildDocs_write_fails BuildDocs_flush_fails BuildDocs_succeeds)

theorem BuildDocs_stages_witness:
  "BuildDocs env_ok oas_empty [] world0 =
     (None,
      \<lparr> open_handles = 0,
        calls = [CallInit, CallMarshal, CallCreate ''./internal/dist/openapi.yaml'',
                 CallWrite ''openapi: 3.0.1'', CallFlush, CallClose] \<rparr>)
   \<and> BuildDocs (env_ok\<lparr> initCallStackForRoutes := (\<lambda>oas. (Some ''no handler'', oas)) \<rparr>)
        oas_empty [] world0 =
     (Some (Errorf ''failed initiating call stack for registered routes''
        (Cause ''no handler'')),
      \<lparr> open_handles = 0, calls = [CallInit] \<rparr>)
   \<and> BuildDocs (env_ok\<lparr> yaml_Marshal := (\<lambda>ho. Inl ''cannot marshal'') \<rparr>)
        oas_empty [] world0 =
     (Some (Errorf ''marshaling issue occurred''
        (Errorf ''failed marshaling to yaml'' (Cause ''cannot marshal''))),
      \<lparr> open_handles = 0, calls = [CallInit, CallMarshal] \<rparr>)
   \<and> BuildDocs (env_ok\<lparr> os_Create := (\<lambda>outPath. Some ''no such directory'') \<rparr>)
        oas_empty [] world0 =
     (Some (Errorf ''an issue occurred while saving to YAML output''
        (Errorf ''failed creating yaml output file'' (Cause ''no such directory''))),
      \<lparr> open_handles = 0,
        calls = [CallInit, CallMarshal, CallCreate ''./internal/dist/openapi.yaml''] \<rparr>)
   \<and> BuildDocs (env_ok\<lparr> writer_Write := (\<lambda>yml. Some ''disk full'') \<rparr>)
        oas_empty [] world0 =
     (Some (Errorf ''an issue occurred while saving to YAML output''
        (Errorf ''writing issue occurred''
          (Errorf ''failed writing to YAML output file'' (Cause ''disk full'')))),
      \<lparr> open_handles = 0,
        calls = [CallInit, CallMarshal, CallCreate ''./internal/dist/openapi.yaml'',
                 CallWrite ''openapi: 3.0.1'', CallClose] \<rparr>)
   \<and> BuildDocs (env_ok\<lparr> writer_Flush := Some ''disk full'' \<rparr>)
        oas_empty [] world0 =
     (Some (Errorf ''an issue occurred while saving to YAML output''
        (Errorf ''writing issue occurred''
          (Errorf ''failed flushing output writer'' (Cause ''disk full'')))),
      \<lparr> open_handles = 0,
        calls = [CallInit, CallMarshal, CallCreate ''./internal/dist/openapi.yaml'',
                 CallWrite ''openapi: 3.0.1'', CallFlush, CallClose] \<rparr>)"
  using
    BuildDocs_stages [of env_ok oas_empty "[]" world0]
    BuildDocs_stages
      [of "env_ok\<lparr> initCallStackForRoutes := (\<lambda>oas. (Some ''no handler'', oas)) \<rparr>"
          oas_empty "[]" world0]
    BuildDocs_stages
      [of "env_ok\<lparr> yaml_Marshal := (\<lambda>ho. Inl ''cannot marshal'') \<rparr>" oas_empty "[]" world0]
    BuildDocs_stages
      [of "env_ok\<lparr> os_Create := (\<lambda>outPath. Some ''no such directory'') \<rparr>"
          oas_empty "[]" world0]
    BuildDocs_stages
      [of "env_ok\<lparr> writer_Write := (\<lambda>yml. Some ''disk full'') \<rparr>" oas_empty "[]" world0]
    BuildDocs_stages
      [of "env_ok\<lparr> writer_Flush := Some ''disk full'' \<rparr>" oas_empty "[]" world0]
  by (simp add: env_ok_def world0_def getPathFromFirstElement_def defaultDocsOutPath_def)

text \<open>
  C10. With a non-empty configuration list the output path is the first element's custom
  path, whatever that string is and whatever follows it; the default path is what an empty
  list gives. \<open>BuildDocs\<close> creates no file at any other path, and creates that one
  whenever validation and serialization succeed.
\<close>

theorem getPathFromFirstElement_first:
  fixes env :: "('a, 'x, 'e) collaborators"
  shows
  "getPathFromFirstElement (cb # cbs) = customPath cb
   \<and> getPathFromFirstElement [] = ''./internal/dist/openapi.yaml''
   \<and> (\<forall>p. CallCreate p \<in> set (calls (snd (BuildDocs env oas conf w))) \<longrightarrow>
          CallCreate p \<in> set (calls w) \<or> p = getPathFromFirstElement conf)
   \<and> (\<forall>oas1 yml.
         initCallStackForRoutes env oas = (None, oas1)
         \<and> yaml_Marshal env (transformToHybridOAS (strings_ToLower env) oas1) = Inr yml \<longrightarrow>
         CallCreate (getPathFromFirstElement conf)
           \<in> set (calls (snd (BuildDocs env oas conf w))))"
proof (intro conjI)
  show "getPathFromFirstElement (cb # cbs) = customPath cb"
    by (simp add: getPathFromFirstElement_def getPath_def)
  show "getPathFromFirstElement [] = ''./internal/dist/openapi.yaml''"
    by (simp add: getPathFromFirstElement_def defaultDocsOutPath_def)
  show "\<forall>p. CallCreate p \<in> set (calls (snd (BuildDocs env oas conf w))) \<longrightarrow>
          CallCreate p \<in> set (calls w) \<or> p = getPathFromFirstElement conf"
  proof (cases rule: collaborator_outcomes
      [where env = env and oas = oas and outPath = "getPathFromFirstElement conf"])
    case validation_fails
    then show ?thesis by (simp add: BuildDocs_validation_fails)
  next
    case serialization_fails
    then show ?thesis by (simp add: BuildDocs_serialization_fails)
  next
    case create_fails
    then show ?thesis by (auto simp: BuildDocs_create_fails)
  next
    case write_fails
    then show ?thesis by (auto simp: BuildDocs_write_fails)
  next
    case flush_fails
    then show ?thesis by (auto simp: BuildDocs_flush_fails)
  next
    case all_succeed
    then show ?thesis by (auto simp: BuildDocs_succeeds)
  qed
  show "\<forall>oas1 yml.
         initCallStackForRoutes env oas = (None, oas1)
         \<and> yaml_Marshal env (transformToHybridOAS (strings_ToLower env) oas1) = Inr yml \<longrightarrow>
         CallCreate (getPathFromFirstElement conf)
           \<in> set (calls (snd (BuildDocs env oas conf w)))"
  proof (cases rule: collaborator_outcomes
      [where env = env and oas = oas and outPath = "getPathFromFirstElement conf"])
    case validation_fails
    then show ?thesis by simp
  next
    case serialization_fails
    then show ?thesis by simp
  next
    case create_fails
    then show ?thesis by (simp add: BuildDocs_create_fails)
  next
    case write_fails
    then show ?thesis by (simp add: BuildDocs_write_fails)
  next
    case flush_fails
    then show ?thesis by (simp add: BuildDocs_flush_fails)
  next
    case all_succeed
    then show ?thesis by (simp add: BuildDocs_succeeds)
  qed
qed

theorem getPathFromFirstElement_first_witness:
  "getPathFromFirstElement [\<lparr> customPath = '''' \<rparr>, \<lparr> customPath = ''docs/api.yaml'' \<rparr>] = ''''
   \<and> CallCreate '''' \<in> set (calls (snd (BuildDocs env_ok oas_empty
        [\<lparr> customPath = '''' \<rparr>, \<lparr> customPath = ''docs/api.yaml'' \<rparr>] world0)))
   \<and> CallCreate ''docs/api.yaml'' \<notin> set (calls (snd (BuildDocs env_ok oas_empty
        [\<lparr> customPath = '''' \<rparr>, \<lparr> customPath = ''docs/api.yaml'' \<rparr>] world0)))
   \<and> CallCreate ''./internal/dist/openapi.yaml'' \<notin> set (calls (snd (BuildDocs env_ok oas_empty
        [\<lparr> customPath = '''' \<rparr>, \<lparr> customPath = ''docs/api.yaml'' \<rparr>] world0)))"
proof -
  let ?conf = "[\<lparr> customPath = '''' \<rparr>, \<lparr> customPath = ''docs/api.yaml'' \<rparr>]"
  note first = getPathFromFirstElement_first
    [where cb = "\<lparr> customPath = '''' \<rparr>" and cbs = "[\<lparr> customPath = ''docs/api.yaml'' \<rparr>]"
       and env = env_ok and oas = oas_empty and conf = ?conf and w = world0]
  from first have path: "getPathFromFirstElement ?conf = ''''"
    by simp
  have reached: "initCallStackForRoutes env_ok oas_empty = (None, oas_empty)"
    "yaml_Marshal env_ok (transformToHybridOAS (strings_ToLower env_ok) oas_empty) =
       Inr ''openapi: 3.0.1''"
    by (simp_all add: env_ok_def)
  from first reached have created:
    "CallCreate (getPathFromFirstElement ?conf)
       \<in> set (calls (snd (BuildDocs env_ok oas_empty ?conf world0)))"
    by blast
  from first have only:
    "CallCreate p \<in> set (calls (snd (BuildDocs env_ok oas_empty ?conf world0))) \<Longrightarrow>
       CallCreate p \<in> set (calls world0) \<or> p = getPathFromFirstElement ?conf" for p
    by blast
  have "CallCreate ''docs/api.yaml''
      \<notin> set (calls (snd (BuildDocs env_ok oas_empty ?conf world0)))"
    using only [of "''docs/api.yaml''"] by (auto simp: path world0_def)
  moreover have "CallCreate ''./internal/dist/openapi.yaml''
      \<notin> set (calls (snd (BuildDocs env_ok oas_empty ?conf world0)))"
    using only [of "''./internal/dist/openapi.yaml''"] by (auto simp: path world0_def)
  ultimately show ?thesis
    using path created by simp
qed

subsection \<open>The paths map\<close>

lemma asciiToLower_GET: "asciiToLower ''GET'' = ''get''"
  by code_simp

lemma asciiToLower_get: "asciiToLower ''get'' = ''get''"
  by code_simp

lemma makeAllPathsMap_loop_snoc:
  "makeAllPathsMap_loop toLower (paths @ [path]) allPaths =
     (let done = makeAllPathsMap_loop toLower paths allPaths;
          methods = (case done (Path_Route path) of None \<Rightarrow> Map.empty | Some m \<Rightarrow> m)
      in done(Path_Route path \<mapsto>
           methods(toLower (Path_HTTPMethod path) \<mapsto> IMap (pathMap path))))"
  by (induction paths arbitrary: allPaths) (simp_all add: Let_def)

lemma makeAllPathsMap_snoc:
  "makeAllPathsMap toLower (paths @ [path]) =
     (makeAllPathsMap toLower paths)
       (Path_Route path \<mapsto>
          (case makeAllPathsMap toLower paths (Path_Route path) of
             None \<Rightarrow> Map.empty
           | Some m \<Rightarrow> m)
          (toLower (Path_HTTPMethod path) \<mapsto> IMap (pathMap path)))"
  by (simp add: makeAllPathsMap_def makeAllPathsMap_loop_snoc Let_def)

lemma makeAllPathsMap_dom:
  "dom (makeAllPathsMap toLower paths) = Path_Route ` set paths"
proof (induction paths rule: rev_induct)
  case Nil
  show ?case by (simp add: makeAllPathsMap_def)
next
  case (snoc path paths)
  then show ?case
    by (subst makeAllPathsMap_snoc, subst dom_fun_upd) simp
qed

text \<open>
  Under a route and a method key the paths map holds the map of the last route of the
  list with that path whose lowercased method is that key.
\<close>

lemma makeAllPathsMap_lookup:
  "(case makeAllPathsMap toLower paths route of None \<Rightarrow> None | Some methods \<Rightarrow> methods k) =
     (case find (\<lambda>p. Path_Route p = route \<and> toLower (Path_HTTPMethod p) = k) (rev paths) of
        None \<Rightarrow> None
      | Some p \<Rightarrow> Some (IMap (pathMap p)))"
proof (induction paths rule: rev_induct)
  case Nil
  show ?case by (simp add: makeAllPathsMap_def)
next
  case (snoc path paths)
  show ?case
  proof (cases "Path_Route path = route")
    case False
    with snoc show ?thesis
      unfolding makeAllPathsMap_snoc by simp
  next
    case True
    show ?thesis
    proof (cases "toLower (Path_HTTPMethod path) = k")
      case same: True
      with True show ?thesis
        unfolding makeAllPathsMap_snoc by simp
    next
      case other: False
      with True snoc show ?thesis
        unfolding makeAllPathsMap_snoc by (auto split: option.splits)
    qed
  qed
qed

lemma makeAllPathsMap_last_for_key:
  fixes methods :: "('a, 'x) methodsMap"
  assumes "find (\<lambda>r. Path_Route r = Path_Route p
              \<and> toLower (Path_HTTPMethod r) = toLower (Path_HTTPMethod p)) (rev paths) = Some p"
    and "makeAllPathsMap toLower paths (Path_Route p) = Some methods"
  shows "methods (toLower (Path_HTTPMethod p)) = Some (IMap (pathMap p))"
proof -
  have "(case (makeAllPathsMap toLower paths :: ('a, 'x) pathsMap) (Path_Route p) of
          None \<Rightarrow> None
        | Some methods \<Rightarrow> methods (toLower (Path_HTTPMethod p))) =
      (case find (\<lambda>r. Path_Route r = Path_Route p
              \<and> toLower (Path_HTTPMethod r) = toLower (Path_HTTPMethod p)) (rev paths) of
         None \<Rightarrow> None
       | Some r \<Rightarrow> Some (IMap (pathMap r)))"
    by (rule makeAllPathsMap_lookup)
  with assms show ?thesis
    by simp
qed

lemma makeAllPathsMap_method_keys:
  fixes methods :: "('a, 'x) methodsMap"
  assumes "makeAllPathsMap toLower paths route = Some methods"
  shows "dom methods =
     (\<lambda>p. toLower (Path_HTTPMethod p)) ` {p \<in> set paths. Path_Route p = route}"
proof (rule set_eqI)
  fix k
  have "(case (makeAllPathsMap toLower paths :: ('a, 'x) pathsMap) route of
          None \<Rightarrow> None
        | Some methods \<Rightarrow> methods k) =
      (case find (\<lambda>p. Path_Route p = route \<and> toLower (Path_HTTPMethod p) = k) (rev paths) of
         None \<Rightarrow> None
       | Some p \<Rightarrow> Some (IMap (pathMap p)))"
    by (rule makeAllPathsMap_lookup)
  with assms have "k \<in> dom methods \<longleftrightarrow>
      find (\<lambda>p. Path_Route p = route \<and> toLower (Path_HTTPMethod p) = k) (rev paths) \<noteq> None"
    by (auto simp: dom_def split: option.splits)
  also have "\<dots> \<longleftrightarrow> (\<exists>p \<in> set paths. Path_Route p = route \<and> toLower (Path_HTTPMethod p) = k)"
    by (auto simp: find_None_iff)
  finally show "k \<in> dom methods \<longleftrightarrow>
      k \<in> (\<lambda>p. toLower (Path_HTTPMethod p)) ` {p \<in> set paths. Path_Route p = route}"
    by auto
qed

lemma pathMap_lookup:
  "pathMap path keyTags = Some (IValue (Path_Tags path))"
  "pathMap path keySummary = Some (IString (Path_Summary path))"
  "pathMap path keyOperationID = Some (IString (Path_OperationID path))"
  "pathMap path keySecurity = Some (ISecurity (makeSecurityMap (Path_Security path)))"
  "pathMap path keyRequestBody = Some (IMap (makeRequestBodyMap (Path_RequestBody path)))"
  "pathMap path keyResponses = Some (IUintMap (makeResponsesMap (Path_Responses path)))"
  by (simp_all add: pathMap_def key_defs)

text \<open>
  C3. The method keys under a route are exactly the lowercased method strings of the
  routes of the list with that path, and a route's map is stored under the lowercased
  form of its method at the moment the loop reaches it. With \<^verbatim>\<open>strings.ToLower\<close> on ASCII
  input, \<^verbatim>\<open>GET\<close> gives the key \<^verbatim>\<open>get\<close>.
\<close>

theorem makeAllPathsMap_method_key_lowercase:
  "(\<forall>route methods.
      makeAllPathsMap toLower paths route = Some methods \<longrightarrow>
      dom methods =
        (\<lambda>p. toLower (Path_HTTPMethod p)) ` {p \<in> set paths. Path_Route p = route})
   \<and> (\<forall>path. \<exists>methods.
        makeAllPathsMap toLower (paths @ [path]) (Path_Route path) = Some methods
        \<and> methods (toLower (Path_HTTPMethod path)) = Some (IMap (pathMap path)))"
proof (intro conjI allI impI)
  fix route and methods :: "('a, 'x) methodsMap"
  assume "makeAllPathsMap toLower paths route = Some methods"
  then show "dom methods =
      (\<lambda>p. toLower (Path_HTTPMethod p)) ` {p \<in> set paths. Path_Route p = route}"
    by (rule makeAllPathsMap_method_keys)
next
  fix path :: "'a Path"
  show "\<exists>methods :: ('a, 'x) methodsMap.
      makeAllPathsMap toLower (paths @ [path]) (Path_Route path) = Some methods
      \<and> methods (toLower (Path_HTTPMethod path)) = Some (IMap (pathMap path))"
    by (subst makeAllPathsMap_snoc) simp
qed

theorem makeAllPathsMap_method_key_lowercase_witness:
  "(makeAllPathsMap asciiToLower [route_upper] :: (unit, unit) pathsMap) =
     [''/users'' \<mapsto> [''get'' \<mapsto> IMap (pathMap route_upper)]]
   \<and> dom [''get'' \<mapsto> (IMap (pathMap route_upper) :: (unit, unit) iface)] =
       asciiToLower ` {''GET''}"
proof -
  have built: "(makeAllPathsMap asciiToLower [route_upper] :: (unit, unit) pathsMap) =
     [''/users'' \<mapsto> [''get'' \<mapsto> IMap (pathMap route_upper)]]"
    by (simp add: makeAllPathsMap_def asciiToLower_GET route_upper_def)
  then have at_users:
    "(makeAllPathsMap asciiToLower [route_upper] :: (unit, unit) pathsMap) ''/users'' =
       Some [''get'' \<mapsto> IMap (pathMap route_upper)]"
    by simp
  have "dom [''get'' \<mapsto> (IMap (pathMap route_upper) :: (unit, unit) iface)] =
      (\<lambda>p. asciiToLower (Path_HTTPMethod p))
        ` {p \<in> set [route_upper]. Path_Route p = ''/users''}"
    by (rule makeAllPathsMap_method_key_lowercase
        [where toLower = asciiToLower and paths = "[route_upper]",
          THEN conjunct1, rule_format, OF at_users])
  also have "\<dots> = asciiToLower ` {''GET''}"
  proof -
    have fields: "Path_Route route_upper = ''/users''" "Path_HTTPMethod route_upper = ''GET''"
      by (simp_all add: route_upper_def)
    have "{p \<in> set [route_upper]. Path_Route p = ''/users''} = {route_upper}"
      using fields by auto
    then show ?thesis
      using fields by simp
  qed
  finally show ?thesis
    using built by simp
qed

lemma find_Some_mem: "find P xs = Some x \<Longrightarrow> x \<in> set xs"
  by (induction xs) (auto split: if_splits)

lemma asciiToLower_POST: "asciiToLower ''POST'' = ''post''"
  by code_simp

lemma route_fields:
  "Path_Route route_upper = ''/users''" "Path_HTTPMethod route_upper = ''GET''"
  "Path_Summary route_upper = ''list users''"
  "Path_Route route_lower = ''/users''" "Path_HTTPMethod route_lower = ''get''"
  "Path_Summary route_lower = ''fetch users''"
  "Path_Route route_post = ''/users''" "Path_HTTPMethod route_post = ''POST''"
  "Path_Summary route_post = ''create user''"
  by (simp_all add: route_upper_def route_lower_def route_post_def)

lemma pathMap_summary_neq:
  assumes "Path_Summary p \<noteq> Path_Summary q"
  shows "(pathMap p :: string \<rightharpoonup> ('a, 'x) iface) \<noteq> pathMap q"
proof
  assume "(pathMap p :: string \<rightharpoonup> ('a, 'x) iface) = pathMap q"
  then have "(pathMap p :: string \<rightharpoonup> ('a, 'x) iface) keySummary = pathMap q keySummary"
    by simp
  with assms show False
    by (simp add: pathMap_lookup)
qed

text \<open>
  C2 as stated fails. Two routes on \<^verbatim>\<open>/users\<close> with the methods \<^verbatim>\<open>GET\<close> and \<^verbatim>\<open>get\<close> differ
  in method, yet both are stored under the key \<^verbatim>\<open>get\<close>: the paths map has that one method
  key, it holds the map of the second route, and the map of the first route is nowhere
  under the path.
\<close>

theorem makeAllPathsMap_case_collision:
  "Path_Route route_upper = Path_Route route_lower
   \<and> Path_HTTPMethod route_upper \<noteq> Path_HTTPMethod route_lower
   \<and> (makeAllPathsMap asciiToLower [route_upper, route_lower] :: (unit, unit) pathsMap) =
       [''/users'' \<mapsto> [''get'' \<mapsto> IMap (pathMap route_lower)]]
   \<and> (IMap (pathMap route_upper) :: (unit, unit) iface)
       \<notin> ran [''get'' \<mapsto> IMap (pathMap route_lower)]"
proof -
  have "(pathMap route_upper :: string \<rightharpoonup> (unit, unit) iface) \<noteq> pathMap route_lower"
    by (rule pathMap_summary_neq) (simp add: route_fields)
  moreover have
    "(makeAllPathsMap asciiToLower [route_upper, route_lower] :: (unit, unit) pathsMap) =
       [''/users'' \<mapsto> [''get'' \<mapsto> IMap (pathMap route_lower)]]"
    by (simp add: makeAllPathsMap_def route_fields asciiToLower_GET asciiToLower_get)
  ultimately show ?thesis
    by (simp add: route_fields)
qed

text \<open>
  C2, amended. The paths map has one key per distinct path string of the input. For two
  routes on one path whose lowercased methods differ, each being the last route of the
  list with its path and lowercased method, both per-method maps are under that path's
  key, each with its own tags, summary, operation id, security, request body and
  responses. (\<open>find P (rev paths) = Some p\<close> says that \<open>p\<close> is the last route satisfying \<open>P\<close>.)
\<close>

theorem makeAllPathsMap_shared_path:
  "dom (makeAllPathsMap toLower paths :: ('a, 'x) pathsMap) = Path_Route ` set paths
   \<and> (\<forall>p q.
        find (\<lambda>r. Path_Route r = Path_Route p
                \<and> toLower (Path_HTTPMethod r) = toLower (Path_HTTPMethod p)) (rev paths) = Some p
        \<and> find (\<lambda>r. Path_Route r = Path_Route q
                \<and> toLower (Path_HTTPMethod r) = toLower (Path_HTTPMethod q)) (rev paths) = Some q
        \<and> Path_Route p = Path_Route q
        \<and> toLower (Path_HTTPMethod p) \<noteq> toLower (Path_HTTPMethod q) \<longrightarrow>
        (\<exists>methods :: ('a, 'x) methodsMap.
           makeAllPathsMap toLower paths (Path_Route p) = Some methods
           \<and> methods (toLower (Path_HTTPMethod p)) = Some (IMap (pathMap p))
           \<and> methods (toLower (Path_HTTPMethod q)) = Some (IMap (pathMap q))))
   \<and> (\<forall>p :: 'a Path.
        (pathMap p :: string \<rightharpoonup> ('a, 'x) iface) keyTags = Some (IValue (Path_Tags p))
        \<and> (pathMap p :: string \<rightharpoonup> ('a, 'x) iface) keySummary = Some (IString (Path_Summary p))
        \<and> (pathMap p :: string \<rightharpoonup> ('a, 'x) iface) keyOperationID =
            Some (IString (Path_OperationID p))
        \<and> (pathMap p :: string \<rightharpoonup> ('a, 'x) iface) keySecurity =
            Some (ISecurity (makeSecurityMap (Path_Security p)))
        \<and> (pathMap p :: string \<rightharpoonup> ('a, 'x) iface) keyRequestBody =
            Some (IMap (makeRequestBodyMap (Path_RequestBody p)))
        \<and> (pathMap p :: string \<rightharpoonup> ('a, 'x) iface) keyResponses =
            Some (IUintMap (makeResponsesMap (Path_Responses p))))"
proof (intro conjI allI impI)
  show "dom (makeAllPathsMap toLower paths :: ('a, 'x) pathsMap) = Path_Route ` set paths"
    by (rule makeAllPathsMap_dom)
next
  fix p q :: "'a Path"
  assume last:
    "find (\<lambda>r. Path_Route r = Path_Route p
            \<and> toLower (Path_HTTPMethod r) = toLower (Path_HTTPMethod p)) (rev paths) = Some p
     \<and> find (\<lambda>r. Path_Route r = Path_Route q
            \<and> toLower (Path_HTTPMethod r) = toLower (Path_HTTPMethod q)) (rev paths) = Some q
     \<and> Path_Route p = Path_Route q
     \<and> toLower (Path_HTTPMethod p) \<noteq> toLower (Path_HTTPMethod q)"
  then have "p \<in> set (rev paths)"
    by (blast intro: find_Some_mem)
  then have "p \<in> set paths"
    by simp
  then have "Path_Route p \<in> dom (makeAllPathsMap toLower paths :: ('a, 'x) pathsMap)"
    unfolding makeAllPathsMap_dom by (rule imageI)
  then obtain methods :: "('a, 'x) methodsMap"
    where methods: "makeAllPathsMap toLower paths (Path_Route p) = Some methods"
    by blast
  from last have last_p:
    "find (\<lambda>r. Path_Route r = Path_Route p
            \<and> toLower (Path_HTTPMethod r) = toLower (Path_HTTPMethod p)) (rev paths) = Some p"
    and last_q:
    "find (\<lambda>r. Path_Route r = Path_Route q
            \<and> toLower (Path_HTTPMethod r) = toLower (Path_HTTPMethod q)) (rev paths) = Some q"
    and same: "Path_Route p = Path_Route q"
    by blast+
  from methods same
  have methods_q: "makeAllPathsMap toLower paths (Path_Route q) = Some methods"
    by simp
  have "methods (toLower (Path_HTTPMethod p)) = Some (IMap (pathMap p))"
    by (rule makeAllPathsMap_last_for_key [OF last_p methods])
  moreover
  have "methods (toLower (Path_HTTPMethod q)) = Some (IMap (pathMap q))"
    by (rule makeAllPathsMap_last_for_key [OF last_q methods_q])
  ultimately show "\<exists>methods :: ('a, 'x) methodsMap.
      makeAllPathsMap toLower paths (Path_Route p) = Some methods
      \<and> methods (toLower (Path_HTTPMethod p)) = Some (IMap (pathMap p))
      \<and> methods (toLower (Path_HTTPMethod q)) = Some (IMap (pathMap q))"
    using methods by blast
qed (simp_all add: pathMap_lookup)

theorem makeAllPathsMap_shared_path_witness:
  "dom (makeAllPathsMap asciiToLower [route_upper, route_post] :: (unit, unit) pathsMap) =
     {''/users''}
   \<and> (\<exists>methods :: (unit, unit) methodsMap.
        makeAllPathsMap asciiToLower [route_upper, route_post] ''/users'' = Some methods
        \<and> methods ''get'' = Some (IMap (pathMap route_upper))
        \<and> methods ''post'' = Some (IMap (pathMap route_post)))"
proof -
  note shared = makeAllPathsMap_shared_path
    [where toLower = asciiToLower and paths = "[route_upper, route_post]"
       and ?'a = unit and ?'x = unit]
  have last:
    "find (\<lambda>r. Path_Route r = Path_Route route_upper
            \<and> asciiToLower (Path_HTTPMethod r) = asciiToLower (Path_HTTPMethod route_upper))
       (rev [route_upper, route_post]) = Some route_upper
     \<and> find (\<lambda>r. Path_Route r = Path_Route route_post
            \<and> asciiToLower (Path_HTTPMethod r) = asciiToLower (Path_HTTPMethod route_post))
       (rev [route_upper, route_post]) = Some route_post
     \<and> Path_Route route_upper = Path_Route route_post
     \<and> asciiToLower (Path_HTTPMethod route_upper) \<noteq> asciiToLower (Path_HTTPMethod route_post)"
    by (simp add: route_fields asciiToLower_GET asciiToLower_POST)
  from shared last
  have "\<exists>methods :: (unit, unit) methodsMap.
      makeAllPathsMap asciiToLower [route_upper, route_post] (Path_Route route_upper) =
        Some methods
      \<and> methods (asciiToLower (Path_HTTPMethod route_upper)) = Some (IMap (pathMap route_upper))
      \<and> methods (asciiToLower (Path_HTTPMethod route_post)) = Some (IMap (pathMap route_post))"
    by blast
  then have "\<exists>methods :: (unit, unit) methodsMap.
      makeAllPathsMap asciiToLower [route_upper, route_post] ''/users'' = Some methods
      \<and> methods ''get'' = Some (IMap (pathMap route_upper))
      \<and> methods ''post'' = Some (IMap (pathMap route_post))"
    by (simp add: route_fields asciiToLower_GET asciiToLower_POST)
  moreover from shared
  have "dom (makeAllPathsMap asciiToLower [route_upper, route_post] :: (unit, unit) pathsMap) =
      {''/users''}"
    by (simp add: route_fields)
  ultimately show ?thesis
    by simp
qed

subsection \<open>The transform allocates the maps it returns, writes nothing else, and shares what it copies\<close>

lemma run_make_map:
  "run_state make_map h =
     (lim h, h\<lparr> objs := (objs h)(lim h \<mapsto> MapObj Map.empty), lim := Suc (lim h) \<rparr>)"
  by (simp add: make_map_def)

lemma run_map_assign:
  "run_state (map_assign a k v) h =
     ((), case objs h a of
            Some (MapObj m) \<Rightarrow> h\<lparr> objs := (objs h)(a \<mapsto> MapObj (m(k \<mapsto> v))) \<rparr>
          | _ \<Rightarrow> h)"
  by (simp add: map_assign_def)

lemma run_map_index:
  "run_state (map_index a k) h = (case objs h a of Some (MapObj m) \<Rightarrow> m k | _ \<Rightarrow> None, h)"
  by (simp add: map_index_def)

lemma run_deref_receiver: "run_state deref_receiver h = (receiver h, h)"
  by (simp add: deref_receiver_def)

lemmas run_simps = run_make_map run_map_assign run_map_index run_deref_receiver

lemma extends_refl: "extends G h h"
  by (simp add: extends_def since_def)

lemma since_mono: "lim h \<le> lim h' \<Longrightarrow> since h0 h \<subseteq> since h0 h'"
  by (auto simp: since_def)

lemma extends_held:
  assumes "extends G h0 h" and "a \<in> since h0 h" and "objs h a = Some (MapObj m)"
    and "v \<in> ran m"
  shows "made_of v \<subseteq> since h0 h" and "copied_of v \<subseteq> G"
  using assms unfolding extends_def by blast+

lemma buildsI:
  assumes "\<And>h r h'. extends G h0 h \<Longrightarrow> A \<subseteq> since h0 h \<Longrightarrow> run_state p h = (r, h') \<Longrightarrow>
    extends G h0 h' \<and> lim h \<le> lim h' \<and> R r \<subseteq> since h0 h'"
  shows "builds G h0 A p R"
  using assms unfolding builds_def by (auto split: prod.split)

lemma buildsD:
  assumes "builds G h0 A p R" and "extends G h0 h" and "A \<subseteq> since h0 h"
    and "run_state p h = (r, h')"
  shows "extends G h0 h'" and "lim h \<le> lim h'" and "R r \<subseteq> since h0 h'"
  using assms unfolding builds_def by (auto split: prod.splits)

lemma builds_return: "R x \<subseteq> A \<Longrightarrow> builds G h0 A (State_Monad.return x) R"
  by (rule buildsI) auto

lemma builds_bind:
  assumes p: "builds G h0 A p R1"
    and q: "\<And>r. builds G h0 (A \<union> R1 r) (q r) R2"
  shows "builds G h0 A (State_Monad.bind p q) R2"
proof (rule buildsI)
  fix h r h'
  assume h: "extends G h0 h" "A \<subseteq> since h0 h"
    and run: "run_state (State_Monad.bind p q) h = (r, h')"
  obtain r1 h1 where run_p: "run_state p h = (r1, h1)"
    by (cases "run_state p h")
  with run have run_q: "run_state (q r1) h1 = (r, h')"
    by simp
  note after_p = buildsD [OF p h run_p]
  have "A \<union> R1 r1 \<subseteq> since h0 h1"
    using h(2) after_p(2,3) since_mono [of h h1 h0] by blast
  note after_q = buildsD [OF q after_p(1) this run_q]
  from after_p(2) after_q
  show "extends G h0 h' \<and> lim h \<le> lim h' \<and> R2 r \<subseteq> since h0 h'"
    by simp
qed

lemma builds_if:
  "builds G h0 A p R \<Longrightarrow> builds G h0 A q R \<Longrightarrow> builds G h0 A (if c then p else q) R"
  by simp

lemma builds_make_map: "builds G h0 A make_map (\<lambda>a. {a})"
proof (rule buildsI)
  fix h r h'
  assume h: "extends G h0 h" and run: "run_state make_map h = (r, h')"
  from run have r: "r = lim h"
    and h': "h' = h\<lparr> objs := (objs h)(lim h \<mapsto> MapObj Map.empty), lim := Suc (lim h) \<rparr>"
    by (auto simp: run_make_map)
  from h have since: "since h0 h' = insert (lim h) (since h0 h)"
    unfolding h' by (auto simp: since_def extends_def)
  have "extends G h0 h'"
    unfolding extends_def since
  proof (intro conjI allI impI)
    show "lim h0 \<le> lim h'" "receiver h' = receiver h0"
      using h by (simp_all add: h' extends_def)
    show "objs h' b = objs h0 b" if "b < lim h0" for b
      using h that by (auto simp: h' extends_def)
    show "\<exists>m. objs h' b = Some (MapObj m)" if "b \<in> insert (lim h) (since h0 h)" for b
      using h that by (auto simp: h' extends_def)
    fix b m' u
    assume held: "b \<in> insert (lim h) (since h0 h) \<and> objs h' b = Some (MapObj m') \<and> u \<in> ran m'"
    show "made_of u \<subseteq> insert (lim h) (since h0 h)" "copied_of u \<subseteq> G"
    proof -
      have "made_of u \<subseteq> since h0 h \<and> copied_of u \<subseteq> G"
      proof (cases "b = lim h")
        case True
        with held show ?thesis
          by (auto simp: h')
      next
        case False
        with held have "objs h b = Some (MapObj m')" "u \<in> ran m'" "b \<in> since h0 h"
          by (simp_all add: h')
        with h show ?thesis
          using extends_held by blast
      qed
      then show "made_of u \<subseteq> insert (lim h) (since h0 h)" "copied_of u \<subseteq> G"
        by blast+
    qed
  qed
  then show "extends G h0 h' \<and> lim h \<le> lim h' \<and> {r} \<subseteq> since h0 h'"
    by (simp add: since r) (simp add: h')
qed

lemma builds_map_assign:
  assumes "a \<in> A" and "made_of v \<subseteq> A" and "copied_of v \<subseteq> G"
  shows "builds G h0 A (map_assign a k v) (\<lambda>_. {})"
proof (rule buildsI)
  fix h r h'
  assume h: "extends G h0 h" and A: "A \<subseteq> since h0 h"
    and run: "run_state (map_assign a k v) h = (r, h')"
  show "extends G h0 h' \<and> lim h \<le> lim h' \<and> {} \<subseteq> since h0 h'"
  proof (cases "\<exists>m. objs h a = Some (MapObj m)")
    case False
    with run have "h' = h"
      by (auto simp: run_map_assign split: option.splits obj.splits)
    with h show ?thesis by simp
  next
    case True
    then obtain m where m: "objs h a = Some (MapObj m)"
      by blast
    with run have h': "h' = h\<lparr> objs := (objs h)(a \<mapsto> MapObj (m(k \<mapsto> v))) \<rparr>"
      by (simp add: run_map_assign)
    have since: "since h0 h' = since h0 h"
      by (simp add: h' since_def)
    from assms A have a: "a \<in> since h0 h" and v: "made_of v \<subseteq> since h0 h"
      by auto
    have new: "made_of u \<subseteq> since h0 h \<and> copied_of u \<subseteq> G" if "u \<in> ran (m(k \<mapsto> v))" for u
    proof -
      from that obtain k' where "(m(k \<mapsto> v)) k' = Some u"
        by (auto simp: ran_def)
      then have "u = v \<or> u \<in> ran m"
        by (auto simp: ran_def split: if_splits)
      with v assms(3) extends_held [OF h a m] show ?thesis by blast
    qed
    have "extends G h0 h'"
      unfolding extends_def since
    proof (intro conjI allI impI)
      show "lim h0 \<le> lim h'" "receiver h' = receiver h0"
        using h by (simp_all add: h' extends_def)
      show "objs h' b = objs h0 b" if "b < lim h0" for b
        using h a that by (auto simp: h' extends_def since_def)
      show "\<exists>m. objs h' b = Some (MapObj m)" if "b \<in> since h0 h" for b
        using h that by (auto simp: h' extends_def)
      fix b m' u
      assume held: "b \<in> since h0 h \<and> objs h' b = Some (MapObj m') \<and> u \<in> ran m'"
      have "made_of u \<subseteq> since h0 h \<and> copied_of u \<subseteq> G"
      proof (cases "b = a")
        case True
        with held have "u \<in> ran (m(k \<mapsto> v))"
          by (auto simp: h')
        then show ?thesis by (rule new)
      next
        case False
        with held have "objs h b = Some (MapObj m')" "u \<in> ran m'" "b \<in> since h0 h"
          by (simp_all add: h')
        with h show ?thesis
          using extends_held by blast
      qed
      then show "made_of u \<subseteq> since h0 h" "copied_of u \<subseteq> G"
        by blast+
    qed
    then show ?thesis by (simp add: h')
  qed
qed

lemma builds_map_index:
  assumes "a \<in> A"
  shows "builds G h0 A (map_index a k) (\<lambda>r. case r of None \<Rightarrow> {} | Some v \<Rightarrow> made_of v)"
proof (rule buildsI)
  fix h r h'
  assume h: "extends G h0 h" and A: "A \<subseteq> since h0 h"
    and run: "run_state (map_index a k) h = (r, h')"
  from run have h': "h' = h"
    and r: "r = (case objs h a of Some (MapObj m) \<Rightarrow> m k | _ \<Rightarrow> None)"
    by (auto simp: run_map_index)
  have "made_of v \<subseteq> since h0 h" if "r = Some v" for v
  proof -
    from that r obtain m where m: "objs h a = Some (MapObj m)" "m k = Some v"
      by (auto split: option.splits obj.splits)
    then have "v \<in> ran m"
      by (auto simp: ran_def)
    moreover from assms A have "a \<in> since h0 h"
      by auto
    ultimately show ?thesis
      using extends_held(1) [OF h _ m(1)] by blast
  qed
  with h show "extends G h0 h' \<and> lim h \<le> lim h'
      \<and> (case r of None \<Rightarrow> {} | Some v \<Rightarrow> made_of v) \<subseteq> since h0 h'"
    by (simp add: h' split: option.split)
qed

lemmas builds_steps =
  builds_bind builds_if builds_make_map builds_map_assign builds_map_index builds_return

lemma makeContentSchemaMapH_loop_builds:
  "contentSchemaMap \<in> A \<Longrightarrow>
     builds G h0 A (makeContentSchemaMapH_loop content contentSchemaMap) (\<lambda>_. {})"
proof (induction content arbitrary: A)
  case Nil
  show ?case by (simp add: builds_return)
next
  case (Cons ct content)
  show ?case
    unfolding makeContentSchemaMapH_loop.simps
    by (rule builds_steps Cons.IH | (simp add: Cons.prems; fail))+
qed

lemma makeContentSchemaMapH_builds:
  "builds G h0 A (makeContentSchemaMapH content) (\<lambda>a. {a})"
  unfolding makeContentSchemaMapH_def
  by (rule builds_steps makeContentSchemaMapH_loop_builds | (simp; fail))+

lemma makeRequestBodyMapH_builds:
  "builds G h0 A (makeRequestBodyMapH reqBody) (\<lambda>a. {a})"
  unfolding makeRequestBodyMapH_def
  by (rule builds_steps makeContentSchemaMapH_builds | (simp; fail))+

lemma makeResponsesMapH_loop_builds:
  "responsesMap \<in> A \<Longrightarrow>
     builds G h0 A (makeResponsesMapH_loop responses responsesMap) (\<lambda>_. {})"
proof (induction responses arbitrary: A)
  case Nil
  show ?case by (simp add: builds_return)
next
  case (Cons resp responses)
  show ?case
    unfolding makeResponsesMapH_loop.simps
    by (rule builds_steps makeContentSchemaMapH_builds Cons.IH | (simp add: Cons.prems; fail))+
qed

lemma makeResponsesMapH_builds:
  "builds G h0 A (makeResponsesMapH responses) (\<lambda>a. {a})"
  unfolding makeResponsesMapH_def
  by (rule builds_steps makeResponsesMapH_loop_builds | (simp; fail))+

lemma makeSecurityMapH_loop_builds:
  "set securityMaps \<subseteq> A \<Longrightarrow> security_refs se \<subseteq> G \<Longrightarrow>
     builds G h0 A (makeSecurityMapH_loop se securityMaps) set"
proof (induction se arbitrary: A securityMaps)
  case Nil
  then show ?case by (simp add: builds_return)
next
  case (Cons sec se)
  from Cons.prems(2)
  have here: "slice_refs (SecurityEntityH_PermTypes sec) \<subseteq> G" and rest: "security_refs se \<subseteq> G"
    by (simp_all add: security_refs_def)
  show ?case
    unfolding makeSecurityMapH_loop.simps
    by (rule builds_steps Cons.IH rest | (use Cons.prems(1) here in auto; fail))+
qed

lemma makeSecurityMapH_builds:
  "security_refs se \<subseteq> G \<Longrightarrow> builds G h0 A (makeSecurityMapH se) set"
  unfolding makeSecurityMapH_def
  by (rule makeSecurityMapH_loop_builds) simp_all

lemma makeComponentSchemasMapH_loop_builds:
  "schemesMap \<in> A \<Longrightarrow> \<Union> (set (map schema_refs schemas)) \<subseteq> G \<Longrightarrow>
     builds G h0 A (makeComponentSchemasMapH_loop schemas schemesMap) (\<lambda>_. {})"
proof (induction schemas arbitrary: A)
  case Nil
  show ?case by (simp add: builds_return)
next
  case (Cons s schemas)
  from Cons.prems(2)
  have here: "grefs (Schema_Properties s) \<subseteq> G" "grefs (XMLEntry.more (Schema_XML s)) \<subseteq> G"
    and rest: "\<Union> (set (map schema_refs schemas)) \<subseteq> G"
    by (simp_all add: schema_refs_def)
  show ?case
    unfolding makeComponentSchemasMapH_loop.simps
    by (rule builds_steps Cons.IH rest | (simp add: Cons.prems(1) here; fail))+
qed

lemma makeComponentSchemasMapH_builds:
  "\<Union> (set (map schema_refs schemas)) \<subseteq> G \<Longrightarrow>
     builds G h0 A (makeComponentSchemasMapH schemas) (\<lambda>a. {a})"
  unfolding makeComponentSchemasMapH_def
  by (rule builds_steps makeComponentSchemasMapH_loop_builds | (simp; fail))+

lemma makeComponentSecuritySchemesMapH_loop_builds:
  "secSchemesMap \<in> A \<Longrightarrow>
     builds G h0 A (makeComponentSecuritySchemesMapH_loop secSchemes secSchemesMap) (\<lambda>_. {})"
proof (induction secSchemes arbitrary: A)
  case Nil
  show ?case by (simp add: builds_return)
next
  case (Cons ss secSchemes)
  show ?case
    unfolding makeComponentSecuritySchemesMapH_loop.simps
    by (rule builds_steps Cons.IH | (simp add: Cons.prems; fail))+
qed

lemma makeComponentSecuritySchemesMapH_builds:
  "builds G h0 A (makeComponentSecuritySchemesMapH secSchemes) (\<lambda>a. {a})"
  unfolding makeComponentSecuritySchemesMapH_def
  by (rule builds_steps makeComponentSecuritySchemesMapH_loop_builds | (simp; fail))+

lemma makeComponentsMapH_loop_builds:
  "cm \<in> A \<Longrightarrow> \<Union> (set (map component_refs components)) \<subseteq> G \<Longrightarrow>
     builds G h0 A (makeComponentsMapH_loop components cm) (\<lambda>_. {})"
proof (induction components arbitrary: A)
  case Nil
  show ?case by (simp add: builds_return)
next
  case (Cons component components)
  from Cons.prems(2)
  have here: "\<Union> (set (map schema_refs (Component_Schemas component))) \<subseteq> G"
    and rest: "\<Union> (set (map component_refs components)) \<subseteq> G"
    by (simp_all add: component_refs_def)
  show ?case
    unfolding makeComponentsMapH_loop.simps
    by (rule builds_steps makeComponentSchemasMapH_builds
          makeComponentSecuritySchemesMapH_builds Cons.IH here rest
        | (simp add: Cons.prems(1); fail))+
qed

lemma makeComponentsMapH_builds:
  "\<Union> (set (map component_refs components)) \<subseteq> G \<Longrightarrow>
     builds G h0 A (makeComponentsMapH components) (\<lambda>a. {a})"
  unfolding makeComponentsMapH_def
  by (rule builds_steps makeComponentsMapH_loop_builds | (simp; fail))+

lemma builds_assign_into_entry:
  assumes "made_of v \<subseteq> A" and "copied_of v \<subseteq> G"
    and "(case entry of None \<Rightarrow> {} | Some u \<Rightarrow> made_of u) \<subseteq> A"
  shows "builds G h0 A
     (case entry of Some (HRef m) \<Rightarrow> map_assign m k v | _ \<Rightarrow> State_Monad.return ())
     (\<lambda>_. {})"
proof (cases entry)
  case None
  then show ?thesis by (simp add: builds_return)
next
  case (Some u)
  with assms show ?thesis
    by (cases u) (simp_all add: builds_return builds_map_assign)
qed

lemma makeAllPathsMapH_loop_builds:
  "allPaths \<in> A \<Longrightarrow> \<Union> (set (map path_refs paths)) \<subseteq> G \<Longrightarrow>
     builds G h0 A (makeAllPathsMapH_loop toLower paths allPaths) (\<lambda>_. {})"
proof (induction paths arbitrary: A)
  case Nil
  show ?case by (simp add: builds_return)
next
  case (Cons path paths)
  from Cons.prems(2)
  have here: "grefs (PathH_Tags path) \<subseteq> G" "security_refs (PathH_Security path) \<subseteq> G"
    and rest: "\<Union> (set (map path_refs paths)) \<subseteq> G"
    by (simp_all add: path_refs_def)
  show ?case
    unfolding makeAllPathsMapH_loop.simps
    by (rule builds_steps builds_assign_into_entry makeSecurityMapH_builds
          makeRequestBodyMapH_builds makeResponsesMapH_builds Cons.IH here rest
        | (simp add: Cons.prems(1) here; fail) | (auto; fail))+
qed

lemma makeAllPathsMapH_builds:
  "\<Union> (set (map path_refs paths)) \<subseteq> G \<Longrightarrow>
     builds G h0 A (makeAllPathsMapH toLower paths) (\<lambda>a. {a})"
  unfolding makeAllPathsMapH_def
  by (rule builds_steps makeAllPathsMapH_loop_builds | (simp; fail))+

lemma transformToHybridOASH_builds:
  "builds (input_refs (receiver h0)) h0 A (transformToHybridOASH toLower)
     (\<lambda>ho. {PathsH ho, ComponentsH ho})"
proof (rule buildsI)
  fix h ho h'
  assume h: "extends (input_refs (receiver h0)) h0 h" and A: "A \<subseteq> since h0 h"
    and run: "run_state (transformToHybridOASH toLower) h = (ho, h')"
  let ?oas = "receiver h0"
  let ?rest = "do {
     paths \<leftarrow> makeAllPathsMapH toLower (OASH_Paths ?oas);
     components \<leftarrow> makeComponentsMapH (OASH_Components ?oas);
     State_Monad.return
       \<lparr> OpenAPIH = OASH_OASVersion ?oas,
         InfoH = OASH_Info ?oas,
         ExternalDocsH = OASH_ExternalDocs ?oas,
         ServersH = OASH_Servers ?oas,
         TagsH = OASH_Tags ?oas,
         PathsH = paths,
         ComponentsH = components \<rparr>
   }"
  from h have "receiver h = ?oas"
    by (simp add: extends_def)
  with run have run_rest: "run_state ?rest h = (ho, h')"
    by (simp add: transformToHybridOASH_def run_deref_receiver)
  have paths: "\<Union> (set (map path_refs (OASH_Paths ?oas))) \<subseteq> input_refs ?oas"
    and components: "\<Union> (set (map component_refs (OASH_Components ?oas))) \<subseteq> input_refs ?oas"
    by (simp_all add: input_refs_def)
  have "builds (input_refs ?oas) h0 A ?rest (\<lambda>ho. {PathsH ho, ComponentsH ho})"
    by (rule builds_steps makeAllPathsMapH_builds makeComponentsMapH_builds paths components
        | (simp; fail))+
  from buildsD [OF this h A run_rest]
  show "extends (input_refs (receiver h0)) h0 h' \<and> lim h \<le> lim h'
      \<and> {PathsH ho, ComponentsH ho} \<subseteq> since h0 h'"
    by simp
qed

lemmas run_defs =
  transformToHybridOASH_def makeAllPathsMapH_def makeComponentsMapH_def makeSecurityMapH_def
  makeRequestBodyMapH_def makeResponsesMapH_def makeContentSchemaMapH_def
  makeComponentSchemasMapH_def makeComponentSecuritySchemesMapH_def run_simps

text \<open>
  C9 as stated fails. The source graph of \<open>heap1\<close> has one route with one security entity,
  whose permission list is a slice over the backing array at address 0. After the
  transform the paths map (address 1) leads through the methods map of \<^verbatim>\<open>/users\<close>
  (address 2) and the map of \<^verbatim>\<open>get\<close> (address 3) to the security map (address 4), and
  that map holds the input's slice: a map of the output tree refers to the backing array
  at address 0, an object of the source graph that existed before the run.
\<close>

theorem transformToHybridOASH_shares_input:
  "objs heap1 0 = Some (ArrayObj [''read:users''])
   \<and> lim heap1 = 1
   \<and> input_refs (receiver heap1) = {0}
   \<and> PathsH (fst (run_state (transformToHybridOASH asciiToLower) heap1)) = 1
   \<and> objs (snd (run_state (transformToHybridOASH asciiToLower) heap1)) 1 =
       Some (MapObj [KString ''/users'' \<mapsto> HRef 2])
   \<and> objs (snd (run_state (transformToHybridOASH asciiToLower) heap1)) 2 =
       Some (MapObj [KString ''get'' \<mapsto> HRef 3])
   \<and> objs (snd (run_state (transformToHybridOASH asciiToLower) heap1)) 3 =
       Some (MapObj
         [KString ''tags'' \<mapsto> HValue (Scalar ''users''),
          KString ''summary'' \<mapsto> HString ''list users'',
          KString ''operationId'' \<mapsto> HString ''listUsers'',
          KString ''security'' \<mapsto> HRefs [4],
          KString ''requestBody'' \<mapsto> HRef 5,
          KString ''responses'' \<mapsto> HRef 7])
   \<and> objs (snd (run_state (transformToHybridOASH asciiToLower) heap1)) 4 =
       Some (MapObj [KString ''oauth'' \<mapsto> HSlice (Slice (Some 0) 1)])
   \<and> copied_of (HSlice (Slice (Some 0) 1)) = {0}
   \<and> objs (snd (run_state (transformToHybridOASH asciiToLower) heap1)) 0 =
       Some (ArrayObj [''read:users''])"
proof (intro conjI)
  show "objs heap1 0 = Some (ArrayObj [''read:users''])" "lim heap1 = 1"
    by (simp_all add: heap1_def)
  show "input_refs (receiver heap1) = {0}"
    by (simp add: heap1_def input_refs_def path_refs_def security_refs_def)
  show "copied_of (HSlice (Slice (Some 0) 1)) = {0}"
    by simp
  show "PathsH (fst (run_state (transformToHybridOASH asciiToLower) heap1)) = 1"
    by (simp add: heap1_def run_defs asciiToLower_GET key_defs eval_nat_numeral
        cong: prod.case_cong_weak)
  show "objs (snd (run_state (transformToHybridOASH asciiToLower) heap1)) 1 =
       Some (MapObj [KString ''/users'' \<mapsto> HRef 2])"
    by (simp add: heap1_def run_defs asciiToLower_GET key_defs eval_nat_numeral
        cong: prod.case_cong_weak)
  show "objs (snd (run_state (transformToHybridOASH asciiToLower) heap1)) 2 =
       Some (MapObj [KString ''get'' \<mapsto> HRef 3])"
    by (simp add: heap1_def run_defs asciiToLower_GET key_defs eval_nat_numeral
        cong: prod.case_cong_weak)
  show "objs (snd (run_state (transformToHybridOASH asciiToLower) heap1)) 3 =
       Some (MapObj
         [KString ''tags'' \<mapsto> HValue (Scalar ''users''),
          KString ''summary'' \<mapsto> HString ''list users'',
          KString ''operationId'' \<mapsto> HString ''listUsers'',
          KString ''security'' \<mapsto> HRefs [4],
          KString ''requestBody'' \<mapsto> HRef 5,
          KString ''responses'' \<mapsto> HRef 7])"
    by (simp add: heap1_def run_defs asciiToLower_GET key_defs eval_nat_numeral
        cong: prod.case_cong_weak)
  show "objs (snd (run_state (transformToHybridOASH asciiToLower) heap1)) 4 =
       Some (MapObj [KString ''oauth'' \<mapsto> HSlice (Slice (Some 0) 1)])"
    by (simp add: heap1_def run_defs asciiToLower_GET key_defs eval_nat_numeral
        cong: prod.case_cong_weak)
  show "objs (snd (run_state (transformToHybridOASH asciiToLower) heap1)) 0 =
       Some (ArrayObj [''read:users''])"
    by (simp add: heap1_def run_defs asciiToLower_GET key_defs eval_nat_numeral
        cong: prod.case_cong_weak)
qed

text \<open>
  C9, amended. Run from any store, the transform leaves the receiver (routes, components
  and metadata) and every object that existed before as they were. The maps it returns for
  \<^verbatim>\<open>Paths\<close> and \<^verbatim>\<open>Components\<close> are objects it allocated itself, everything it allocates is
  a map, and every map that such a map holds as a map made by the code is again one it
  allocated: every map that the transform puts in the output tree is freshly allocated.
  The values it assigns from the input are stored uncopied: what they refer to is shared
  with the source graph, and through them the output refers to nothing that the input did
  not refer to. The five metadata fields of the result are the receiver's values.
\<close>

theorem transformToHybridOASH_fresh_maps:
  "(case run_state (transformToHybridOASH toLower) h of
      (ho, h') \<Rightarrow>
        receiver h' = receiver h
        \<and> (\<forall>a. a < lim h \<longrightarrow> objs h' a = objs h a)
        \<and> PathsH ho \<in> {lim h..<lim h'}
        \<and> ComponentsH ho \<in> {lim h..<lim h'}
        \<and> (\<forall>a. a \<in> {lim h..<lim h'} \<longrightarrow> (\<exists>m. objs h' a = Some (MapObj m)))
        \<and> (\<forall>a m v. a \<in> {lim h..<lim h'} \<and> objs h' a = Some (MapObj m) \<and> v \<in> ran m \<longrightarrow>
              made_of v \<subseteq> {lim h..<lim h'} \<and> copied_of v \<subseteq> input_refs (receiver h))
        \<and> OpenAPIH ho = OASH_OASVersion (receiver h)
        \<and> InfoH ho = OASH_Info (receiver h)
        \<and> ExternalDocsH ho = OASH_ExternalDocs (receiver h)
        \<and> ServersH ho = OASH_Servers (receiver h)
        \<and> TagsH ho = OASH_Tags (receiver h))"
proof -
  obtain ho h' where run: "run_state (transformToHybridOASH toLower) h = (ho, h')"
    by (cases "run_state (transformToHybridOASH toLower) h")
  have "extends (input_refs (receiver h)) h h'" and "{PathsH ho, ComponentsH ho} \<subseteq> since h h'"
    using buildsD
      [OF transformToHybridOASH_builds [where ?h0.0 = h and A = "{}" and toLower = toLower]
        extends_refl _ run]
    by simp_all
  moreover from run
  have "OpenAPIH ho = OASH_OASVersion (receiver h)" "InfoH ho = OASH_Info (receiver h)"
    "ExternalDocsH ho = OASH_ExternalDocs (receiver h)" "ServersH ho = OASH_Servers (receiver h)"
    "TagsH ho = OASH_Tags (receiver h)"
    by (auto simp: transformToHybridOASH_def run_deref_receiver split: prod.splits)
  ultimately show ?thesis
    unfolding run extends_def since_def by simp
qed

theorem transformToHybridOASH_fresh_maps_witness:
  "receiver (snd (run_state (transformToHybridOASH asciiToLower) heap1)) = receiver heap1
   \<and> objs (snd (run_state (transformToHybridOASH asciiToLower) heap1)) 0 = objs heap1 0
   \<and> PathsH (fst (run_state (transformToHybridOASH asciiToLower) heap1)) = 1
   \<and> lim (snd (run_state (transformToHybridOASH asciiToLower) heap1)) = 9
   \<and> objs (snd (run_state (transformToHybridOASH asciiToLower) heap1)) 1 =
       Some (MapObj [KString ''/users'' \<mapsto> HRef 2])
   \<and> made_of (HRef 2) \<subseteq> {lim heap1..<lim (snd (run_state (transformToHybridOASH asciiToLower) heap1))}
   \<and> objs (snd (run_state (transformToHybridOASH asciiToLower) heap1)) 4 =
       Some (MapObj [KString ''oauth'' \<mapsto> HSlice (Slice (Some 0) 1)])
   \<and> copied_of (HSlice (Slice (Some 0) 1)) \<subseteq> input_refs (receiver heap1)"
proof -
  let ?h = "snd (run_state (transformToHybridOASH asciiToLower) heap1)"
  have base: "lim heap1 = 1"
    by (simp add: heap1_def)
  have limit: "lim ?h = 9"
    by (simp add: heap1_def run_defs asciiToLower_GET key_defs eval_nat_numeral
        cong: prod.case_cong_weak)
  have paths: "PathsH (fst (run_state (transformToHybridOASH asciiToLower) heap1)) = 1"
    by (simp add: heap1_def run_defs asciiToLower_GET key_defs eval_nat_numeral
        cong: prod.case_cong_weak)
  have at_1: "objs ?h 1 = Some (MapObj [KString ''/users'' \<mapsto> HRef 2])"
    by (simp add: heap1_def run_defs asciiToLower_GET key_defs eval_nat_numeral
        cong: prod.case_cong_weak)
  have at_4: "objs ?h 4 = Some (MapObj [KString ''oauth'' \<mapsto> HSlice (Slice (Some 0) 1)])"
    by (simp add: heap1_def run_defs asciiToLower_GET key_defs eval_nat_numeral
        cong: prod.case_cong_weak)
  note frame = transformToHybridOASH_fresh_maps
    [where toLower = asciiToLower and h = heap1, unfolded case_prod_beta]
  note unchanged = frame [THEN conjunct2, THEN conjunct1, rule_format]
  note held = frame [THEN conjunct2, THEN conjunct2, THEN conjunct2, THEN conjunct2,
    THEN conjunct2, THEN conjunct1, rule_format]
  have receiver: "receiver ?h = receiver heap1"
    using frame by (rule conjunct1)
  have source: "objs ?h 0 = objs heap1 0"
    by (rule unchanged) (simp add: base)
  have "made_of (HRef 2) \<subseteq> {lim heap1..<lim ?h}"
    by (rule held [of 1 "[KString ''/users'' \<mapsto> HRef 2]" "HRef 2", THEN conjunct1])
      (use at_1 in \<open>simp add: base limit\<close>)
  moreover
  have "copied_of (HSlice (Slice (Some 0) 1)) \<subseteq> input_refs (receiver heap1)"
    by (rule held [of 4 "[KString ''oauth'' \<mapsto> HSlice (Slice (Some 0) 1)]"
          "HSlice (Slice (Some 0) 1)", THEN conjunct2])
      (use at_4 in \<open>simp add: base limit\<close>)
  ultimately show ?thesis
    using receiver source paths limit at_1 at_4 by simp
qed

end
